theory Spec2Isabelle
  imports Main
begin

section \<open>JavaScript values\<close>

text \<open>
  The client is TypeScript; at run time its parameter maps, request options, token cache
  and response bodies are plain JavaScript values. They are modelled by one datatype.
  \<open>JNum n\<close> stands for the bigint \<open>n\<close>, and also for the number \<open>n\<close> when its magnitude
  is below \<open>10^21\<close>: the two render alike and the client tells them apart nowhere. The
  other numbers (non-integral ones, and those of magnitude \<open>10^21\<close> and more, which
  \<open>String\<close> writes with an exponent) have no value in the model. Strings are lists of
  bytes. A plain object is an association list in property order.
\<close>

datatype json =
    JUndefined
  | JNull
  | JBool bool
  | JNum int
  | JStr string
  | JArr "json list"
  | JObj "(string \<times> json) list"

type_synonym props = "(string \<times> json) list"

text \<open>Truthiness, as tested by \<open>if (v)\<close>, \<open>!v\<close>, \<open>a || b\<close> and \<open>a && b\<close>.\<close>

fun truthy :: "json \<Rightarrow> bool" where
  "truthy JUndefined = False"
| "truthy JNull = False"
| "truthy (JBool b) = b"
| "truthy (JNum n) = (n \<noteq> 0)"
| "truthy (JStr s) = (s \<noteq> [])"
| "truthy (JArr xs) = True"
| "truthy (JObj ps) = True"

text \<open>Decimal rendering of an integer, as \<open>String(n)\<close> gives it.\<close>

definition digit_char :: "nat \<Rightarrow> char" where
  "digit_char d = ''0123456789'' ! (d mod 10)"

fun dec_nat :: "nat \<Rightarrow> string" where
  "dec_nat n = (if n < 10 then [digit_char n] else dec_nat (n div 10) @ [digit_char (n mod 10)])"

definition dec_int :: "int \<Rightarrow> string" where
  "dec_int i = (if i < 0 then CHR ''-'' # dec_nat (nat (- i)) else dec_nat (nat i))"

text \<open>\<open>xs.join(sep)\<close> on strings.\<close>

fun join_strings :: "string \<Rightarrow> string list \<Rightarrow> string" where
  "join_strings sep [] = []"
| "join_strings sep [s] = s"
| "join_strings sep (s # t # ss) = s @ sep @ join_strings sep (t # ss)"

definition nullish :: "json \<Rightarrow> bool" where
  "nullish v = (v = JUndefined \<or> v = JNull)"

text \<open>
  \<open>String(v)\<close>. An array renders as its elements joined by a comma, where \<open>null\<close> and
  \<open>undefined\<close> elements give the empty string; a plain object renders as
  \<open>[object Object]\<close>.
\<close>

fun String :: "json \<Rightarrow> string" where
  "String JUndefined = ''undefined''"
| "String JNull = ''null''"
| "String (JBool b) = (if b then ''true'' else ''false'')"
| "String (JNum n) = dec_int n"
| "String (JStr s) = s"
| "String (JArr xs) = join_strings '','' (map (\<lambda>x. if nullish x then [] else String x) xs)"
| "String (JObj ps) = ''[object Object]''"

text \<open>\<open>xs.join(sep)\<close> on an array of values.\<close>

definition join :: "string \<Rightarrow> json list \<Rightarrow> string" where
  "join sep xs = join_strings sep (map (\<lambda>x. if nullish x then [] else String x) xs)"


section \<open>Plain objects\<close>

text \<open>
  Property order of an object: array-index keys first, in ascending numeric order, then
  the other keys in the order of their creation. An array index is a canonical decimal
  numeral below \<open>2^32 - 1\<close>. The operations that create, write and delete properties
  do not look at the values, and are defined for property lists over any type of values.
\<close>

definition is_digit :: "char \<Rightarrow> bool" where
  "is_digit ch = (ch \<in> set ''0123456789'')"

definition nat_of_digits :: "string \<Rightarrow> nat" where
  "nat_of_digits k = foldl (\<lambda>n ch. 10 * n + (of_char ch - 48)) 0 k"

definition array_index :: "string \<Rightarrow> nat option" where
  "array_index k =
     (if k \<noteq> [] \<and> list_all is_digit k \<and> (k = ''0'' \<or> hd k \<noteq> CHR ''0'')
         \<and> nat_of_digits k < 4294967295
      then Some (nat_of_digits k) else None)"

text \<open>Reading a property: \<open>o[k]\<close> on an object is \<open>undefined\<close> when the key is missing.\<close>

definition lookup :: "props \<Rightarrow> string \<Rightarrow> json" where
  "lookup ps k = (case map_of ps k of Some v \<Rightarrow> v | None \<Rightarrow> JUndefined)"

text \<open>
  \<open>v[k]\<close> and \<open>v?.[k]\<close> for the property names the client reads from responses, errors
  and the token cache (\<open>data\<close>, \<open>error\<close>, \<open>code\<close>, \<open>continue\<close>, \<open>query\<close>, \<open>tokens\<close> and
  \<open><type>token\<close>). None of them is an index, \<open>length\<close> or a method, so the read yields
  \<open>undefined\<close> on everything that is not a plain object. On \<open>null\<close> and \<open>undefined\<close>
  the source either guards the read or uses \<open>?.\<close>, which also gives \<open>undefined\<close>.
\<close>

fun get_prop :: "json \<Rightarrow> string \<Rightarrow> json" where
  "get_prop (JObj ps) k = lookup ps k"
| "get_prop v k = JUndefined"

fun insert_index :: "nat \<Rightarrow> string \<Rightarrow> 'v \<Rightarrow> (string \<times> 'v) list \<Rightarrow> (string \<times> 'v) list" where
  "insert_index n k v [] = [(k, v)]"
| "insert_index n k v ((k', v') # ps) =
     (case array_index k' of
        Some m \<Rightarrow> if m < n then (k', v') # insert_index n k v ps else (k, v) # (k', v') # ps
      | None \<Rightarrow> (k, v) # (k', v') # ps)"

text \<open>
  Writing an own data property (what the spread \<open>{...o}\<close> does for each property it
  copies): an existing property keeps its place, a new one is created.
\<close>

definition define_prop :: "(string \<times> 'v) list \<Rightarrow> string \<Rightarrow> 'v \<Rightarrow> (string \<times> 'v) list" where
  "define_prop ps k v =
     (if map_of ps k \<noteq> None then map (\<lambda>(k', v'). if k' = k then (k', v) else (k', v')) ps
      else case array_index k of
             Some n \<Rightarrow> insert_index n k v ps
           | None \<Rightarrow> ps @ [(k, v)])"

text \<open>
  The assignment \<open>o[k] = v\<close>, which is also what \<open>Object.assign\<close> does for each
  property it copies. It writes the own property, except that the name \<open>__proto__\<close>,
  when the object has no own property of that name, reaches the setter inherited from
  \<open>Object.prototype\<close> and creates no property. (The setter ignores a primitive; an object
  would become the prototype, and prototypes are not part of the model.)
\<close>

definition set_prop :: "(string \<times> 'v) list \<Rightarrow> string \<Rightarrow> 'v \<Rightarrow> (string \<times> 'v) list" where
  "set_prop ps k v =
     (if k = ''__proto__'' \<and> map_of ps k = None then ps else define_prop ps k v)"

text \<open>Whether the assignment \<open>o[k] = v\<close> writes a property.\<close>

definition assignable :: "(string \<times> 'v) list \<Rightarrow> string \<Rightarrow> bool" where
  "assignable ps k = (k \<noteq> ''__proto__'' \<or> map_of ps k \<noteq> None)"

text \<open>The spread \<open>{...o}\<close>.\<close>

definition spread :: "(string \<times> 'v) list \<Rightarrow> (string \<times> 'v) list" where
  "spread ps = foldl (\<lambda>t (k, v). define_prop t k v) [] ps"

text \<open>\<open>delete o[k]\<close>.\<close>

definition delete_prop :: "(string \<times> 'v) list \<Rightarrow> string \<Rightarrow> (string \<times> 'v) list" where
  "delete_prop ps k = filter (\<lambda>(k', v'). k' \<noteq> k) ps"

text \<open>
  The own enumerable properties that \<open>Object.assign\<close> copies from a source: those of an
  object; the indexed elements of an array; the indexed characters of a string; none for
  \<open>undefined\<close>, \<open>null\<close>, numbers and booleans.
\<close>

definition indexed :: "json list \<Rightarrow> props" where
  "indexed xs = zip (map dec_nat [0..<length xs]) xs"

fun own_entries :: "json \<Rightarrow> props" where
  "own_entries (JObj ps) = ps"
| "own_entries (JArr xs) = indexed xs"
| "own_entries (JStr s) = indexed (map (\<lambda>ch. JStr [ch]) s)"
| "own_entries v = []"

definition assign1 :: "props \<Rightarrow> json \<Rightarrow> props" where
  "assign1 target src = foldl (\<lambda>t (k, v). set_prop t k v) target (own_entries src)"

text \<open>\<open>Object.assign(target, ...sources)\<close> on a plain-object target.\<close>

definition assign :: "props \<Rightarrow> json list \<Rightarrow> props" where
  "assign target sources = foldl assign1 target sources"

section \<open>Parameter normalisation\<close>

text \<open>
  \<open>preprocessParameters\<close> (identical in \<open>MWCC\<close> and \<open>MWCCStatic\<close>) walks the keys of the map
  with \<open>for (const key in parameters)\<close> and rewrites or deletes the entry of the current
  key in place. The loop is a fold over the keys found at entry; the map is its state.
\<close>

definition preprocess_step :: "props \<Rightarrow> string \<Rightarrow> props" where
  "preprocess_step parameters key =
     (let val = lookup parameters key in
      case val of
        JArr xs \<Rightarrow> set_prop parameters key (JStr (join ''|'' xs))
      | _ \<Rightarrow> if lookup parameters key = JBool False \<or> lookup parameters key = JUndefined
             then delete_prop parameters key
             else parameters)"

definition preprocessParameters :: "props \<Rightarrow> props" where
  "preprocessParameters parameters = foldl preprocess_step parameters (map fst parameters)"


text \<open>What one round of the loop does to the entry of the key it visits; the invariant of the
  loop is stated with it.\<close>

fun normal :: "json option \<Rightarrow> json option" where
  "normal None = None"
| "normal (Some (JArr xs)) = Some (JStr (join ''|'' xs))"
| "normal (Some (JBool b)) = (if b then Some (JBool True) else None)"
| "normal (Some JUndefined) = None"
| "normal (Some v) = Some v"

section \<open>The client, its state and the transport\<close>

text \<open>
  The repository holds two live implementations of the client: class \<open>MWCC\<close> in
  \<open>src/mwcc.ts\<close> and class \<open>MWCCStatic\<close> (the later revision, \<open>mwcc_static\<close>). They share
  \<open>preprocessParameters\<close>, \<open>getToken\<close>, \<open>badToken\<close> and \<open>mapLegacyToken\<close> word by word and
  differ in how \<open>ajax\<close> stores the POST body and in how \<open>postWithToken\<close> wires its retry;
  \<open>continuedQuery\<close> and \<open>massQuery\<close> exist in \<open>MWCCStatic\<close> only.
\<close>

datatype implementation = MWCC | MWCCStatic

text \<open>
  The \<open>data\<close> field of a request configuration: absent, a plain object, the url-encoded
  string written by \<open>MWCC.ajax\<close> (\<open>new URLSearchParams(data).toString()\<close>), or the
  \<open>URLSearchParams\<close> object written by \<open>MWCCStatic.ajax\<close>. Both of the latter are
  represented by the list of name/value pairs they encode, in order.
\<close>

datatype body =
    NoBody
  | BodyObject props
  | BodyString "(string \<times> string) list"
  | BodyForm "(string \<times> string) list"

text \<open>
  The fields of the Axios request configuration that the client reads or writes. The
  \<open>params\<close> field is absent or a plain object. Headers, url, timeout and the abort signal
  are handed to the transport untouched and are left out.
\<close>

record options =
  o_method :: "string option"
  o_params :: "props option"
  o_data :: body

definition no_options :: options where
  "no_options = \<lparr>o_method = None, o_params = None, o_data = NoBody\<rparr>"

text \<open>What \<open>axios.request\<close> settles with: a response, or a thrown error.\<close>

datatype reply = Response json | Failure json

text \<open>
  A client instance: which class it is, the \<open>method\<close>, \<open>params\<close> and \<open>data\<close> of
  \<open>axios.defaults\<close>, and the transport. The transport answers the \<open>n\<close>-th request issued
  by this instance (counting from 0) as a function of \<open>n\<close> and the request.
\<close>

record client =
  impl :: implementation
  defaults_method :: "string option"
  defaults_params :: json
  defaults_data :: json
  transport :: "nat \<Rightarrow> options \<Rightarrow> reply"

text \<open>
  The mutable state of an instance: the token cache \<open>this.tokens\<close>, the number of
  registered abort controllers \<open>this.aborts.length\<close>, and (a ghost field) the requests
  handed to the transport so far.
\<close>

record state =
  tokens :: json
  aborts :: nat
  sent :: "options list"

text \<open>
  How a call ends: the promise resolves, the promise rejects, the call throws before it
  returns a promise, or the promise it returns is never settled.
\<close>

datatype outcome = Resolved json | Rejected json | Thrown json | Unsettled

definition TypeError :: json where
  "TypeError = JObj [(''name'', JStr ''TypeError'')]"

definition error_object :: "string \<Rightarrow> string \<Rightarrow> json" where
  "error_object code info = JObj [(''error'', JObj [(''code'', JStr code), (''info'', JStr info)])]"

definition error_object_details :: "string \<Rightarrow> string \<Rightarrow> json \<Rightarrow> json" where
  "error_object_details code info details =
     JObj [(''error'', JObj [(''code'', JStr code), (''info'', JStr info), (''details'', details)])]"

text \<open>\<open>err.error?.code\<close>.\<close>

definition error_code :: "json \<Rightarrow> json" where
  "error_code err = get_prop (get_prop err ''error'') ''code''"

section \<open>The request executor\<close>

text \<open>\<open>typeof v !== 'object'\<close> for a truthy value.\<close>

fun is_object :: "json \<Rightarrow> bool" where
  "is_object (JArr xs) = True"
| "is_object (JObj ps) = True"
| "is_object v = False"

text \<open>The two callbacks on \<open>this.axios.request(options)\<close> in \<open>ajax\<close>.\<close>

fun settle :: "reply \<Rightarrow> outcome" where
  "settle (Response response) =
     (if response = JUndefined \<or> response = JNull \<or> \<not> truthy (get_prop response ''data'')
      then Rejected (error_object_details ''ok-but-empty''
                       ''OK response but empty result (check HTTP headers?)'' response)
      else if \<not> is_object (get_prop response ''data'')
      then Rejected (error_object ''invalidjson'' ''Invalid JSON response (check the request URL?)'')
      else if truthy (get_prop (get_prop response ''data'') ''error'')
      then Rejected (get_prop response ''data'')
      else Resolved (get_prop response ''data''))"
| "settle (Failure error) =
     (if truthy error \<and> get_prop error ''code'' = JStr ''ERR_CANCELED''
      then Rejected (error_object ''aborted'' ''HTTP request aborted by user'')
      else Rejected (error_object_details ''http'' ''HTTP request failed'' error))"

text \<open>The regular expression \<open>/^GET$/i\<close>.\<close>

definition is_GET :: "string \<Rightarrow> bool" where
  "is_GET m =
     (case m of
        [a, b, c] \<Rightarrow> a \<in> set ''Gg'' \<and> b \<in> set ''Ee'' \<and> c \<in> set ''Tt''
      | _ \<Rightarrow> False)"

definition defaults :: props where
  "defaults = [(''action'', JStr ''query''), (''format'', JStr ''json''), (''formatversion'', JStr ''2'')]"

text \<open>\<open>a || b || 'GET'\<close> on optional strings: the empty string is falsy.\<close>

definition choose_method :: "string option \<Rightarrow> string option \<Rightarrow> string" where
  "choose_method a b =
     (case a of
        Some m \<Rightarrow> if m \<noteq> [] then m else (case b of Some m' \<Rightarrow> if m' \<noteq> [] then m' else ''GET'' | None \<Rightarrow> ''GET'')
      | None \<Rightarrow> (case b of Some m' \<Rightarrow> if m' \<noteq> [] then m' else ''GET'' | None \<Rightarrow> ''GET''))"

text \<open>
  \<open>new URLSearchParams(data)\<close> on a plain object: one pair per property, in property
  order, the value converted with \<open>String\<close>.
\<close>

definition form_pairs :: "props \<Rightarrow> (string \<times> string) list" where
  "form_pairs d = map (\<lambda>(k, v). (k, String v)) d"

definition encode :: "implementation \<Rightarrow> (string \<times> string) list \<Rightarrow> body" where
  "encode i pairs = (case i of MWCC \<Rightarrow> BodyString pairs | MWCCStatic \<Rightarrow> BodyForm pairs)"

text \<open>
  The last part of \<open>ajax\<close>: register an abort controller, hand the configuration to the
  transport and classify what comes back. The caller's \<open>parameters\<close> and \<open>options\<close>
  objects are returned as \<open>ajax\<close> left them.
\<close>

definition issue :: "client \<Rightarrow> state \<Rightarrow> props \<Rightarrow> options \<Rightarrow> outcome \<times> props \<times> options \<times> state" where
  "issue c st parameters opts =
     (settle (transport c (length (sent st)) opts),
      parameters, opts,
      st\<lparr>aborts := Suc (aborts st), sent := sent st @ [opts]\<rparr>)"

text \<open>
  \<open>ajax(parameters, options)\<close>. On the POST branch the target of \<open>Object.assign\<close> is
  \<open>options.data || {}\<close>:
  \<^item> absent, or the empty string: a fresh object;
  \<^item> a plain object: that object;
  \<^item> a non-empty string: \<open>Object.assign\<close> wraps it in a \<open>String\<close> object, which
    \<open>URLSearchParams\<close> takes for a sequence of pairs because it is iterable, and rejects
    with a \<open>TypeError\<close> because its items are one-character strings;
  \<^item> a \<open>URLSearchParams\<close> object: the assigned properties land on the object itself and
    are not part of its list, which \<open>new URLSearchParams(data)\<close> copies as it is. A
    property named \<open>size\<close> cannot be assigned, because \<open>URLSearchParams\<close> has a getter
    of that name and no setter: \<open>Object.assign\<close> throws a \<open>TypeError\<close>.
\<close>

definition ajax :: "client \<Rightarrow> state \<Rightarrow> props \<Rightarrow> options \<Rightarrow> outcome \<times> props \<times> options \<times> state" where
  "ajax c st parameters opts =
     (let (token, parameters1) =
            (case lookup parameters ''token'' of
               JStr t \<Rightarrow> (t, delete_prop parameters ''token'')
             | _ \<Rightarrow> ([], parameters));
          parameters2 = preprocessParameters parameters1;
          opts1 = opts\<lparr>o_method := Some (choose_method (o_method opts) (defaults_method c))\<rparr>
      in if is_GET (choose_method (o_method opts) (defaults_method c)) then
           let p0 = (case o_params opts1 of Some p \<Rightarrow> p | None \<Rightarrow> []);
               p1 = assign p0 [defaults_params c, JObj defaults, JObj parameters2];
               p2 = (if token \<noteq> [] then set_prop p1 ''token'' (JStr token) else p1)
           in issue c st parameters2 (opts1\<lparr>o_params := Some p2\<rparr>)
         else
           let plain = (\<lambda>target.
                 let d1 = assign target [defaults_data c, JObj defaults, JObj parameters2];
                     d2 = (if token \<noteq> [] then set_prop d1 ''token'' (JStr token) else d1)
                 in issue c st parameters2 (opts1\<lparr>o_data := encode (impl c) (form_pairs d2)\<rparr>))
           in case o_data opts1 of
                NoBody \<Rightarrow> plain []
              | BodyObject d \<Rightarrow> plain d
              | BodyString pairs \<Rightarrow>
                  if pairs = [] then plain []
                  else (Thrown TypeError, parameters2, opts1, st)
              | BodyForm pairs \<Rightarrow>
                  if map_of (own_entries (defaults_data c) @ defaults @ parameters2) ''size'' \<noteq> None
                  then (Thrown TypeError, parameters2, opts1, st)
                  else issue c st parameters2 (opts1\<lparr>o_data := encode (impl c) pairs\<rparr>))"

text \<open>\<open>get\<close> and \<open>post\<close> set \<open>options.method\<close> and call \<open>ajax\<close>.\<close>

definition get :: "client \<Rightarrow> state \<Rightarrow> props \<Rightarrow> options \<Rightarrow> outcome \<times> props \<times> options \<times> state" where
  "get c st parameters opts = ajax c st parameters (opts\<lparr>o_method := Some ''GET''\<rparr>)"

definition post :: "client \<Rightarrow> state \<Rightarrow> props \<Rightarrow> options \<Rightarrow> outcome \<times> props \<times> options \<times> state" where
  "post c st parameters opts = ajax c st parameters (opts\<lparr>o_method := Some ''POST''\<rparr>)"


section \<open>The token cache\<close>

text \<open>\<open>mapLegacyToken\<close>; the deprecation notice it prints is not modelled.\<close>

definition csrfActions :: "string list" where
  "csrfActions = [''edit'', ''delete'', ''protect'', ''move'', ''block'', ''unblock'',
                  ''email'', ''import'', ''options'']"

definition mapLegacyToken :: "string \<Rightarrow> string" where
  "mapLegacyToken action = (if action \<in> set csrfActions then ''csrf'' else action)"

text \<open>The optional second argument of \<open>getToken\<close>: absent, a string, or a parameter map.\<close>

datatype additional = NoParams | AssertString string | Params props

text \<open>
  \<open>getToken(tokenType, additionalParams)\<close>. The parameter map of the query is a local
  object, so only the outcome and the state are returned. An exception inside the
  executor of \<open>new Promise\<close> rejects the promise.
\<close>

definition token_query :: "additional \<Rightarrow> props" where
  "token_query additionalParams =
     assign [(''meta'', JStr ''tokens''), (''type'', JStr ''*'')]
       [case additionalParams of
          NoParams \<Rightarrow> JObj []
        | AssertString a \<Rightarrow> JObj [(''assert'', JStr a)]
        | Params ps \<Rightarrow> JObj ps]"

definition getToken :: "client \<Rightarrow> state \<Rightarrow> string \<Rightarrow> additional \<Rightarrow> outcome \<times> state" where
  \<open>getToken c st tokenType additionalParams =
     (let tokenName = mapLegacyToken tokenType @ ''token'';
          cashedToken = get_prop (tokens st) tokenName
      in if truthy cashedToken then (Resolved cashedToken, st)
         else
           case get c st (token_query additionalParams) no_options of
             (Resolved res, _, _, st1) \<Rightarrow>
               let resToken = get_prop (get_prop res ''query'') ''tokens'' in
               if truthy resToken then
                 let token = get_prop resToken tokenName in
                 if truthy token then (Resolved token, st1\<lparr>tokens := resToken\<rparr>)
                 else (Rejected (error_object ''badnamedtoken''
                         (''Could not find a token named "'' @ mapLegacyToken tokenType
                            @ ''" (check for typos?)'')),
                       st1\<lparr>tokens := resToken\<rparr>)
               else (Rejected (error_object ''ok-but-empty'' ''OK response but empty result''), st1)
           | (Rejected e, _, _, st1) \<Rightarrow> (Rejected e, st1)
           | (Thrown e, _, _, st1) \<Rightarrow> (Rejected e, st1)
           | (Unsettled, _, _, st1) \<Rightarrow> (Unsettled, st1))\<close>

text \<open>\<open>badToken(tokenType)\<close>.\<close>

definition badToken :: "state \<Rightarrow> string \<Rightarrow> state" where
  "badToken st tokenType =
     (let tokenName = mapLegacyToken tokenType @ ''token'' in
      if truthy (get_prop (tokens st) tokenName)
      then st\<lparr>tokens := (case tokens st of JObj ps \<Rightarrow> JObj (delete_prop ps tokenName) | v \<Rightarrow> v)\<rparr>
      else st)"

section \<open>The token-guarded post\<close>

text \<open>
  \<open>postWithToken(tokenType, params, options)\<close>. The promise chain is read as follows: a
  callback that throws rejects the promise of its \<open>then\<close>; a rejection travels to the next
  \<open>catch\<close>; the outer promise settles only where \<open>resolve\<close> or \<open>reject\<close> is called. The two
  classes differ in the innermost step: \<open>MWCCStatic\<close> ends the retry with
  \<open>.then(resolve).catch(reject)\<close>, \<open>MWCC\<close> returns the retry's promise and attaches
  \<open>.catch(reject)\<close> only. Both pass the same \<open>options\<close> object to the two posts.
\<close>

definition retry_resolved :: "implementation \<Rightarrow> json \<Rightarrow> outcome" where
  "retry_resolved i v = (case i of MWCCStatic \<Rightarrow> Resolved v | MWCC \<Rightarrow> Unsettled)"

definition postWithToken ::
  "client \<Rightarrow> state \<Rightarrow> string \<Rightarrow> props \<Rightarrow> options \<Rightarrow> outcome \<times> props \<times> options \<times> state" where
  "postWithToken c st tokenType params opts =
     (let assertParams = Params [(''assert'', lookup params ''assert''),
                                 (''assertuser'', lookup params ''assertuser'')]
      in case getToken c st tokenType assertParams of
           (Resolved token, st1) \<Rightarrow>
             (case post c st1 (set_prop params ''token'' token) opts of
                (Resolved v, params2, opts2, st2) \<Rightarrow> (Resolved v, params2, opts2, st2)
              | (Rejected err, params2, opts2, st2) \<Rightarrow>
                  if error_code err = JStr ''badtoken'' then
                    (let st3 = badToken st2 tokenType;
                         params3 = set_prop params2 ''token'' JUndefined
                     in case getToken c st3 tokenType assertParams of
                          (Resolved t, st4) \<Rightarrow>
                            (case post c st4 (set_prop params3 ''token'' t) opts2 of
                               (Resolved v, rest) \<Rightarrow> (retry_resolved (impl c) v, rest)
                             | (Rejected e, rest) \<Rightarrow> (Rejected e, rest)
                             | (Thrown e, rest) \<Rightarrow> (Rejected e, rest)
                             | (Unsettled, rest) \<Rightarrow> (Unsettled, rest))
                        | (Rejected e, st4) \<Rightarrow> (Rejected e, params3, opts2, st4)
                        | (Thrown e, st4) \<Rightarrow> (Rejected e, params3, opts2, st4)
                        | (Unsettled, st4) \<Rightarrow> (Unsettled, params3, opts2, st4))
                  else (Rejected err, params2, opts2, st2)
              | (Thrown e, rest) \<Rightarrow> (Rejected e, rest)
              | (Unsettled, rest) \<Rightarrow> (Unsettled, rest))
         | (Rejected e, st1) \<Rightarrow> (Rejected e, params, opts, st1)
         | (Thrown e, st1) \<Rightarrow> (Rejected e, params, opts, st1)
         | (Unsettled, st1) \<Rightarrow> (Unsettled, params, opts, st1))"

section \<open>The continuation driver\<close>

text \<open>
  The inner function \<open>req(params, count)\<close> of \<open>MWCCStatic.continuedQuery\<close>; \<open>responses\<close> is
  the array it appends to. The first call is made by \<open>continuedQuery\<close> itself, so an
  exception there leaves \<open>continuedQuery\<close>; a later call is made inside a \<open>then\<close> callback,
  whose exception reaches the \<open>catch\<close> of the step before.
\<close>

function req :: "client \<Rightarrow> int \<Rightarrow> state \<Rightarrow> json list \<Rightarrow> props \<Rightarrow> int \<Rightarrow> outcome \<times> props \<times> state" where
  "req c limit st responses params count =
     (case get c st params no_options of
        (Resolved res, params1, opts1, st1) \<Rightarrow>
          if truthy (get_prop res ''continue'') \<and> count < limit
          then req c limit st1 (responses @ [res]) (assign params1 [get_prop res ''continue'']) (count + 1)
          else (Resolved (JArr (responses @ [res])), params1, st1)
      | (Rejected err, params1, opts1, st1) \<Rightarrow> (Resolved (JArr (responses @ [err])), params1, st1)
      | (Thrown e, params1, opts1, st1) \<Rightarrow>
          (if count = 1 then Thrown e else Resolved (JArr (responses @ [e])), params1, st1)
      | (Unsettled, params1, opts1, st1) \<Rightarrow> (Unsettled, params1, st1))"
  by pat_completeness auto
termination
  by (relation "measure (\<lambda>(c, limit, st, responses, params, count). nat (limit - count))") auto

declare req.simps [simp del]

definition continuedQuery :: "client \<Rightarrow> state \<Rightarrow> props \<Rightarrow> int option \<Rightarrow> outcome \<times> props \<times> state" where
  "continuedQuery c st parameters limit =
     req c (case limit of Some n \<Rightarrow> n | None \<Rightarrow> 10) st [] parameters 1"

text \<open>
  Two readings of a settled promise used to state what the driver does: whether a step
  lets it go on (the test \<open>resCont\<close> on a resolved body), and the value that is pushed
  to \<open>responses\<close>.
\<close>

fun continues :: "outcome \<Rightarrow> bool" where
  "continues (Resolved res) = truthy (get_prop res ''continue'')"
| "continues r = False"

fun payload :: "outcome \<Rightarrow> json" where
  "payload (Resolved v) = v"
| "payload (Rejected e) = e"
| "payload (Thrown e) = e"
| "payload Unsettled = JUndefined"

section \<open>The batch splitter\<close>

text \<open>
  \<open>MWCCStatic.massQuery(parameters, fields, options)\<close>. The second argument is one field
  name or an array of names; the options carry an optional \<open>apilimit\<close> and an optional
  \<open>verbose\<close> flag, which only controls a console message and has no part in the model.
\<close>

datatype fields = Field string | Fields "string list"

record batch_options =
  o_apilimit :: "int option"
  o_verbose :: "bool option"

text \<open>The getter \<open>apilimit\<close> of the class.\<close>

definition apilimit :: int where
  "apilimit = 50"

text \<open>\<open>(Array.isArray(fields) ? fields : [fields]).filter((v) => v)\<close>.\<close>

definition field_names :: "fields \<Rightarrow> string list" where
  "field_names fs = filter (\<lambda>v. v \<noteq> []) (case fs of Field f \<Rightarrow> [f] | Fields l \<Rightarrow> l)"

text \<open>\<open>Array.isArray(v)\<close>, and \<open>'"' + key + '"'\<close>.\<close>

fun is_array :: "json \<Rightarrow> bool" where
  "is_array (JArr xs) = True"
| "is_array v = False"

definition quoted :: "string \<Rightarrow> string" where
  "quoted key = [CHR 0x22] @ key @ [CHR 0x22]"

text \<open>\<open>val.map((v) => String(v))\<close> for the value of a property that is an array.\<close>

fun coerced :: "json \<Rightarrow> string list" where
  "coerced (JArr val) = map String val"
| "coerced v = []"

text \<open>The regular expression \<open>/limit$/\<close>.\<close>

definition ends_with_limit :: "string \<Rightarrow> bool" where
  "ends_with_limit key = (5 \<le> length key \<and> drop (length key - 5) key = ''limit'')"

text \<open>
  The callback of \<open>Object.keys(parameters).reduce\<close>. Its state is the accumulator
  \<open>acc\<close>, the array \<open>nonArrayBatchParams\<close> and the (copied) parameter map.
\<close>

definition scan_step ::
  "int \<Rightarrow> string list \<Rightarrow> string list list \<times> string list \<times> props \<Rightarrow> string
     \<Rightarrow> string list list \<times> string list \<times> props" where
  "scan_step lim fs s key =
     (case s of (acc, nonArrayBatchParams, parameters) \<Rightarrow>
        if key \<in> set fs then
          (case lookup parameters key of
             JArr val \<Rightarrow> (acc @ [map String val], nonArrayBatchParams, parameters)
           | _ \<Rightarrow> (acc, nonArrayBatchParams @ [quoted key], parameters))
        else if ends_with_limit key \<and> (lim = 500 \<or> lim = 50)
        then (acc, nonArrayBatchParams, set_prop parameters key (JStr ''max''))
        else (acc, nonArrayBatchParams, parameters))"

text \<open>
  \<open>fieldValues[0].length === arr.length && fieldValues[0].every((el, i) => arr[i] === el)\<close>
\<close>

definition same_array :: "'a list \<Rightarrow> 'a list \<Rightarrow> bool" where
  "same_array first arr =
     (length first = length arr \<and> list_all (\<lambda>i. arr ! i = first ! i) [0..<length first])"

text \<open>\<open>promise.then(res => res).catch(err => err)\<close>.\<close>

fun absorb :: "outcome \<Rightarrow> outcome" where
  "absorb (Resolved res) = Resolved res"
| "absorb (Rejected err) = Resolved err"
| "absorb (Thrown e) = Thrown e"
| "absorb Unsettled = Unsettled"

text \<open>
  \<open>Promise.all\<close>: rejects with the first rejection there is, stays unsettled while a
  member is unsettled, and otherwise resolves with the values in order.
\<close>

fun resolved_value :: "outcome \<Rightarrow> json option" where
  "resolved_value (Resolved v) = Some v"
| "resolved_value r = None"

fun is_rejected :: "outcome \<Rightarrow> bool" where
  "is_rejected (Rejected e) = True"
| "is_rejected r = False"

definition Promise_all :: "outcome list \<Rightarrow> outcome" where
  "Promise_all rs =
     (case filter is_rejected rs of
        r # _ \<Rightarrow> r
      | [] \<Rightarrow> if list_all (\<lambda>r. resolved_value r \<noteq> None) rs
              then Resolved (JArr (map (\<lambda>r. the (resolved_value r)) rs))
              else Unsettled)"

text \<open>
  The \<open>while (batchArray.length)\<close> loop. \<open>splice(0, apilimit)\<close> removes and returns the
  first \<open>apilimit\<close> elements, none when \<open>apilimit\<close> is zero or negative; the loop then
  never ends, which is the value \<open>None\<close>. Each round copies the parameter map, stores the
  joined chunk under every named field and posts the copy with fresh options. An
  exception of \<open>post\<close> would leave \<open>massQuery\<close>.
\<close>

partial_function (option) batch_loop ::
  "client \<Rightarrow> int \<Rightarrow> props \<Rightarrow> string list \<Rightarrow> state \<Rightarrow> string list \<Rightarrow> outcome list
     \<Rightarrow> (outcome \<times> state) option" where
  "batch_loop c lim parameters fs st batchArray result =
     (if batchArray = [] then Some (Promise_all result, st)
      else
        let multiValue = join_strings ''|'' (take (nat lim) batchArray);
            params = foldl (\<lambda>p key. set_prop p key (JStr multiValue)) (spread parameters) fs
        in case post c st params no_options of
             (Thrown e, params1, opts1, st1) \<Rightarrow> Some (Thrown e, st1)
           | (r, params1, opts1, st1) \<Rightarrow>
               batch_loop c lim parameters fs st1 (drop (nat lim) batchArray) (result @ [absorb r]))"

declare batch_loop.simps [code]

definition massQuery ::
  "client \<Rightarrow> state \<Rightarrow> props \<Rightarrow> fields \<Rightarrow> batch_options \<Rightarrow> (outcome \<times> state) option" where
  \<open>massQuery c st parameters flds opts =
     (let lim = (case o_apilimit opts of Some n \<Rightarrow> n | None \<Rightarrow> apilimit);
          parameters1 = assign [] [JObj parameters];
          fs = field_names flds
      in case foldl (scan_step lim fs) ([], [], parameters1) (map fst parameters1) of
           (fieldValues, nonArrayBatchParams, parameters2) \<Rightarrow>
             if nonArrayBatchParams \<noteq> [] then
               Some (Rejected (error_object ''nonarray-exception''
                       (''The value(s) for '' @ join_strings '', '' nonArrayBatchParams
                          @ '' must be arrays'')), st)
             else if fs = [] then
               Some (Rejected (error_object ''emptyfield'' ''The "fields" parameter is empty''), st)
             else
               (case fieldValues of
                  [] \<Rightarrow>
                    Some (Rejected (error_object ''nomultivalue''
                            ''There's no multi-value field (check for typos in parameter keys?)''), st)
                | batchArray # others \<Rightarrow>
                    if \<not> list_all (same_array batchArray) others then
                      Some (Rejected (error_object ''nonindentical-arrays''
                              ''The multi-value fields must all have the same array''), st)
                    else if batchArray = [] then Some (Resolved (JArr []), st)
                    else batch_loop c lim parameters2 fs st batchArray []))\<close>

section \<open>The batch splitter on a store\<close>

text \<open>
  \<open>massQuery\<close> receives its parameter map by reference, and the arrays in it are
  objects of their own. To say what the call does to them, objects and arrays live in a
  store: a list of cells, an address being a position in it. A property of an object
  holds a reference to an array of the store, or any other value, which nothing in the
  client modifies and which is held directly. A new object or array takes the next free
  address.
\<close>

type_synonym addr = nat

datatype hval = Val json | Ref addr

datatype cell = Object "(string \<times> hval) list" | Array "json list"

type_synonym store = "cell list"

definition alloc :: "store \<Rightarrow> cell \<Rightarrow> addr \<times> store" where
  "alloc h c = (length h, h @ [c])"

definition props_at :: "store \<Rightarrow> addr \<Rightarrow> (string \<times> hval) list" where
  "props_at h a = (if a < length h then (case h ! a of Object ps \<Rightarrow> ps | Array xs \<Rightarrow> []) else [])"

definition elements_at :: "store \<Rightarrow> addr \<Rightarrow> json list" where
  "elements_at h a = (if a < length h then (case h ! a of Array xs \<Rightarrow> xs | Object ps \<Rightarrow> []) else [])"

text \<open>The value that a property holds, and the object at an address, as JavaScript values.\<close>

fun deref :: "store \<Rightarrow> hval \<Rightarrow> json" where
  "deref h (Val v) = v"
| "deref h (Ref a) = JArr (elements_at h a)"

definition load :: "store \<Rightarrow> addr \<Rightarrow> props" where
  "load h a = map (\<lambda>(k, v). (k, deref h v)) (props_at h a)"

text \<open>\<open>o[k]\<close> on an object of the store.\<close>

definition lookup_store :: "(string \<times> hval) list \<Rightarrow> string \<Rightarrow> hval" where
  "lookup_store ps k = (case map_of ps k of Some v \<Rightarrow> v | None \<Rightarrow> Val JUndefined)"

text \<open>
  \<open>ajax\<close>, \<open>get\<close> and \<open>post\<close> on a parameter map of the store. They delete and rewrite
  properties of the object they are given; they read the arrays it refers to
  (\<open>val.join('|')\<close>) and write none. After the call no property of the map holds an
  array any more, so every property holds its value directly.
\<close>

definition ajax_store ::
  "client \<Rightarrow> state \<Rightarrow> store \<Rightarrow> addr \<Rightarrow> options \<Rightarrow> outcome \<times> options \<times> state \<times> store" where
  "ajax_store c st h parameters opts =
     (case ajax c st (load h parameters) opts of
        (r, parameters1, opts1, st1) \<Rightarrow>
          (r, opts1, st1, h[parameters := Object (map (\<lambda>(k, v). (k, Val v)) parameters1)]))"

definition get_store ::
  "client \<Rightarrow> state \<Rightarrow> store \<Rightarrow> addr \<Rightarrow> options \<Rightarrow> outcome \<times> options \<times> state \<times> store" where
  "get_store c st h parameters opts = ajax_store c st h parameters (opts\<lparr>o_method := Some ''GET''\<rparr>)"

definition post_store ::
  "client \<Rightarrow> state \<Rightarrow> store \<Rightarrow> addr \<Rightarrow> options \<Rightarrow> outcome \<times> options \<times> state \<times> store" where
  "post_store c st h parameters opts = ajax_store c st h parameters (opts\<lparr>o_method := Some ''POST''\<rparr>)"

text \<open>
  The callback of \<open>Object.keys(parameters).reduce\<close>, where \<open>parameters\<close> is the address of
  the copy. \<open>val.map((v) => String(v))\<close> builds a new array; the accumulator holds the
  addresses of these arrays. The rewrite of a \<open>limit\<close> parameter writes into the copy.
\<close>

definition scan_step_store ::
  "int \<Rightarrow> string list \<Rightarrow> addr \<Rightarrow> addr list \<times> string list \<times> store \<Rightarrow> string
     \<Rightarrow> addr list \<times> string list \<times> store" where
  "scan_step_store lim fs parameters s key =
     (case s of (acc, nonArrayBatchParams, h) \<Rightarrow>
        if key \<in> set fs then
          (case deref h (lookup_store (props_at h parameters) key) of
             JArr val \<Rightarrow>
               (case alloc h (Array (map (\<lambda>v. JStr (String v)) val)) of
                  (a, h1) \<Rightarrow> (acc @ [a], nonArrayBatchParams, h1))
           | _ \<Rightarrow> (acc, nonArrayBatchParams @ [quoted key], h))
        else if ends_with_limit key \<and> (lim = 500 \<or> lim = 50)
        then (acc, nonArrayBatchParams,
              h[parameters := Object (set_prop (props_at h parameters) key (Val (JStr ''max'')))])
        else (acc, nonArrayBatchParams, h))"

text \<open>
  A run of the call, observed after a number of rounds of its loop: it is over, with an
  outcome, or it is still in the loop. Either way there is the state of the client and
  the store at that moment.
\<close>

datatype run = Done outcome state store | Running state store

fun store_of :: "run \<Rightarrow> store" where
  "store_of (Done r st h) = h"
| "store_of (Running st h) = h"

text \<open>
  The \<open>while (batchArray.length)\<close> loop, for at most the given number of rounds.
  \<open>splice(0, apilimit)\<close> removes the first elements from the array at \<open>batchArray\<close>, one of
  the arrays that the pass over the keys has built; \<open>{...parameters}\<close> is a new object,
  which the loop over \<open>fields\<close> writes to and \<open>post\<close> then normalises in place.
\<close>

fun batch_loop_store ::
  "nat \<Rightarrow> client \<Rightarrow> int \<Rightarrow> addr \<Rightarrow> string list \<Rightarrow> state \<Rightarrow> store \<Rightarrow> addr \<Rightarrow> outcome list \<Rightarrow> run" where
  "batch_loop_store 0 c lim parameters fs st h batchArray result = Running st h"
| "batch_loop_store (Suc n) c lim parameters fs st h batchArray result =
     (if elements_at h batchArray = [] then Done (Promise_all result) st h
      else
        let multiValue = join ''|'' (take (nat lim) (elements_at h batchArray));
            h1 = h[batchArray := Array (drop (nat lim) (elements_at h batchArray))]
        in case alloc h1 (Object (spread (props_at h1 parameters))) of
             (params, h2) \<Rightarrow>
               let h3 = h2[params := Object (foldl (\<lambda>p key. set_prop p key (Val (JStr multiValue)))
                                               (props_at h2 params) fs)]
               in case post_store c st h3 params no_options of
                    (Thrown e, opts1, st1, h4) \<Rightarrow> Done (Thrown e) st1 h4
                  | (r, opts1, st1, h4) \<Rightarrow>
                      batch_loop_store n c lim parameters fs st1 h4 batchArray (result @ [absorb r]))"

text \<open>
  \<open>massQuery\<close> on the store. \<open>parameters\<close> is the address of the caller's map;
  \<open>parameters = Object.assign({}, parameters)\<close> makes the local variable point to a new
  object, which holds the same values and the same references.
\<close>

definition massQuery_store ::
  "nat \<Rightarrow> client \<Rightarrow> state \<Rightarrow> store \<Rightarrow> addr \<Rightarrow> fields \<Rightarrow> batch_options \<Rightarrow> run" where
  \<open>massQuery_store fuel c st h parameters flds opts =
     (let lim = (case o_apilimit opts of Some n \<Rightarrow> n | None \<Rightarrow> apilimit);
          fs = field_names flds
      in case alloc h (Object (foldl (\<lambda>t (k, v). set_prop t k v) [] (props_at h parameters))) of
           (parameters1, h1) \<Rightarrow>
             (case foldl (scan_step_store lim fs parameters1) ([], [], h1)
                     (map fst (props_at h1 parameters1)) of
                (fieldValues, nonArrayBatchParams, h2) \<Rightarrow>
                  if nonArrayBatchParams \<noteq> [] then
                    Done (Rejected (error_object ''nonarray-exception''
                            (''The value(s) for '' @ join_strings '', '' nonArrayBatchParams
                               @ '' must be arrays''))) st h2
                  else if fs = [] then
                    Done (Rejected (error_object ''emptyfield'' ''The "fields" parameter is empty'')) st h2
                  else
                    (case fieldValues of
                       [] \<Rightarrow>
                         Done (Rejected (error_object ''nomultivalue''
                                 ''There's no multi-value field (check for typos in parameter keys?)'')) st h2
                     | batchArray # others \<Rightarrow>
                         if \<not> list_all (\<lambda>arr. same_array (elements_at h2 batchArray) (elements_at h2 arr))
                                  others then
                           Done (Rejected (error_object ''nonindentical-arrays''
                                   ''The multi-value fields must all have the same array'')) st h2
                         else if elements_at h2 batchArray = [] then Done (Resolved (JArr [])) st h2
                         else batch_loop_store fuel c lim parameters1 fs st h2 batchArray [])))\<close>

section \<open>Example sessions\<close>

text \<open>
  Concrete clients for the worked examples: a transport that answers the \<open>n\<close>-th request
  with the \<open>n\<close>-th reply of a script (and fails once the script is used up), a client
  with the default configuration of the constructor, and the state of a new instance.
\<close>

definition script :: "reply list \<Rightarrow> nat \<Rightarrow> options \<Rightarrow> reply" where
  "script rs n r = (if n < length rs then rs ! n else Failure JUndefined)"

definition example_client :: "implementation \<Rightarrow> reply list \<Rightarrow> client" where
  "example_client i rs =
     \<lparr>impl = i, defaults_method = Some ''GET'', defaults_params = JUndefined,
      defaults_data = JUndefined, transport = script rs\<rparr>"

definition new_instance :: state where
  "new_instance = \<lparr>tokens = JObj [], aborts = 0, sent = []\<rparr>"

definition body_response :: "json \<Rightarrow> reply" where
  "body_response d = Response (JObj [(''status'', JNum 200), (''data'', d)])"

definition tokens_response :: "string \<Rightarrow> reply" where
  "tokens_response t =
     body_response (JObj [(''batchcomplete'', JBool True),
                          (''query'', JObj [(''tokens'', JObj [(''csrftoken'', JStr t)])])])"

definition badtoken_response :: reply where
  "badtoken_response =
     body_response (JObj [(''error'', JObj [(''code'', JStr ''badtoken''),
                                            (''info'', JStr ''Invalid CSRF token.'')])])"

definition success_response :: reply where
  "success_response = body_response (JObj [(''edit'', JObj [(''result'', JStr ''Success'')])])"

definition continuing_response :: "string \<Rightarrow> reply" where
  "continuing_response start =
     body_response (JObj [(''continue'', JObj [(''apcontinue'', JStr start), (''continue'', JStr ''-||'')]),
                          (''query'', JObj [(''allpages'', JArr [])])])"

section \<open>Properties of plain objects\<close>

lemma map_of_insert_index:
  "map_of ps k = None \<Longrightarrow>
   map_of (insert_index n k v ps) k' = (if k' = k then Some v else map_of ps k')"
  by (induction ps) (auto split: option.splits if_splits)

lemma map_of_update_all:
  "map_of (map (\<lambda>(k', v'). if k' = k then (k', v) else (k', v')) ps) k' =
     (if k' = k \<and> map_of ps k \<noteq> None then Some v else map_of ps k')"
  by (induction ps) (auto split: if_splits)

lemma map_of_define_prop:
  "map_of (define_prop ps k v) k' = (if k' = k then Some v else map_of ps k')"
proof (cases "map_of ps k")
  case None
  then show ?thesis
    by (auto simp: define_prop_def map_of_insert_index map_add_def split: option.splits)
next
  case (Some a)
  then show ?thesis by (simp add: define_prop_def map_of_update_all)
qed

lemma assignable_present: "map_of ps k = Some v \<Longrightarrow> assignable ps k"
  by (simp add: assignable_def)

lemma assignable_other: "k \<noteq> ''__proto__'' \<Longrightarrow> assignable ps k"
  by (simp add: assignable_def)

lemma map_of_set_prop:
  "map_of (set_prop ps k v) k' = (if k' = k \<and> assignable ps k then Some v else map_of ps k')"
  by (auto simp: set_prop_def assignable_def map_of_define_prop)

lemma map_of_delete_prop:
  "map_of (delete_prop ps k) k' = (if k' = k then None else map_of ps k')"
  by (induction ps) (auto simp: delete_prop_def)

lemma lookup_set_prop:
  "lookup (set_prop ps k v) k' = (if k' = k \<and> assignable ps k then v else lookup ps k')"
  by (simp add: lookup_def map_of_set_prop)

lemma lookup_delete_prop:
  "lookup (delete_prop ps k) k' = (if k' = k then JUndefined else lookup ps k')"
  by (simp add: lookup_def map_of_delete_prop)

section \<open>Normalisation\<close>

lemma normal_idem: "normal (normal x) = normal x"
  by (cases x rule: normal.cases) auto

lemma map_of_preprocess_step:
  "map_of (preprocess_step ps a) k = (if k = a then normal (map_of ps a) else map_of ps k)"
  by (cases "map_of ps a"; cases "lookup ps a")
     (auto simp: preprocess_step_def Let_def map_of_set_prop map_of_delete_prop lookup_def
                 assignable_def
           split: json.splits)

lemma map_of_preprocess_fold:
  "map_of (foldl preprocess_step ps ks) k =
     (if k \<in> set ks then normal (map_of ps k) else map_of ps k)"
  by (induction ks arbitrary: ps) (auto simp: map_of_preprocess_step normal_idem)

lemma map_of_preprocessParameters: "map_of (preprocessParameters ps) k = normal (map_of ps k)"
proof (cases "k \<in> set (map fst ps)")
  case True
  then show ?thesis by (simp add: preprocessParameters_def map_of_preprocess_fold)
next
  case False
  then have "map_of ps k = None" by (simp add: map_of_eq_None_iff)
  with False show ?thesis by (simp add: preprocessParameters_def map_of_preprocess_fold)
qed

text \<open>
  C5. Normalisation is a total function of the parameter map (it has no error result).
  Looking a key up afterwards: a key that was absent, or held \<open>false\<close> or \<open>undefined\<close>, is
  absent; a key that held an array holds the string of its elements joined with \<open>|\<close>;
  every other value (numbers, strings, \<open>null\<close>, \<open>true\<close>) is still there under its key.
\<close>

theorem preprocessParameters_normalises:
  "map_of (preprocessParameters parameters) key =
     (case map_of parameters key of
        None \<Rightarrow> None
      | Some (JArr xs) \<Rightarrow> Some (JStr (join ''|'' xs))
      | Some (JBool False) \<Rightarrow> None
      | Some JUndefined \<Rightarrow> None
      | Some v \<Rightarrow> Some v)"
  by (cases "map_of parameters key" rule: normal.cases)
     (simp_all add: map_of_preprocessParameters)

theorem preprocessParameters_normalises_witness:
  "map_of (preprocessParameters
             [(''titles'', JArr [JStr ''A'', JNum 2, JNull]), (''minor'', JBool False),
              (''bot'', JBool True), (''summary'', JUndefined), (''section'', JNum 0)]) ''titles''
     = Some (JStr ''A|2|'')"
  using preprocessParameters_normalises
          [of "[(''titles'', JArr [JStr ''A'', JNum 2, JNull]), (''minor'', JBool False),
                (''bot'', JBool True), (''summary'', JUndefined), (''section'', JNum 0)]" "''titles''"]
  by (simp add: join_def nullish_def dec_int_def digit_char_def)

section \<open>Requests\<close>

lemma is_GET_GET: "is_GET ''GET''" by (simp add: is_GET_def)
lemma not_is_GET_POST: "\<not> is_GET ''POST''" by (simp add: is_GET_def)
lemma choose_method_Some: "m \<noteq> [] \<Longrightarrow> choose_method (Some m) d = m"
  by (simp add: choose_method_def)


lemma get_issues:
  "\<exists>r p. get c st ps opts =
     (settle (transport c (length (sent st)) r), p, r,
      st\<lparr>aborts := Suc (aborts st), sent := sent st @ [r]\<rparr>) \<and> o_method r = Some ''GET''"
  by (simp add: get_def ajax_def Let_def issue_def choose_method_Some is_GET_GET split: prod.splits json.splits)

lemma settle_cases: "(\<exists>v. settle r = Resolved v) \<or> (\<exists>e. settle r = Rejected e)"
  by (cases r) auto

lemma get_outcome:
  obtains (resolved) res p r where "get c st ps opts = (Resolved res, p, r, st\<lparr>aborts := Suc (aborts st), sent := sent st @ [r]\<rparr>)"
   "settle (transport c (length (sent st)) r) = Resolved res" "o_method r = Some ''GET''"
  | (rejected) e p r where "get c st ps opts = (Rejected e, p, r, st\<lparr>aborts := Suc (aborts st), sent := sent st @ [r]\<rparr>)"
   "settle (transport c (length (sent st)) r) = Rejected e" "o_method r = Some ''GET''"
proof -
  obtain r p where g: "get c st ps opts =
     (settle (transport c (length (sent st)) r), p, r,
      st\<lparr>aborts := Suc (aborts st), sent := sent st @ [r]\<rparr>)" "o_method r = Some ''GET''"
    using get_issues by blast
  from settle_cases[of "transport c (length (sent st)) r"] show thesis
  proof
    assume "\<exists>v. settle (transport c (length (sent st)) r) = Resolved v"
    then obtain v where "settle (transport c (length (sent st)) r) = Resolved v" ..
    with g show thesis using resolved by simp
  next
    assume "\<exists>e. settle (transport c (length (sent st)) r) = Rejected e"
    then obtain e where "settle (transport c (length (sent st)) r) = Rejected e" ..
    with g show thesis using rejected by simp
  qed
qed

section \<open>Token cache\<close>

lemma mapLegacyToken_csrf: "mapLegacyToken ''csrf'' = ''csrf''"
  by (simp add: mapLegacyToken_def)

lemma mapLegacyToken_legacy: "action \<in> set csrfActions \<Longrightarrow> mapLegacyToken action = ''csrf''"
  by (simp add: mapLegacyToken_def)

lemma getToken_canonical:
  assumes "mapLegacyToken a = mapLegacyToken b"
  shows "getToken c st a extra = getToken c st b extra"
  unfolding getToken_def assms ..

lemma badToken_canonical:
  assumes "mapLegacyToken a = mapLegacyToken b"
  shows "badToken st a = badToken st b"
  unfolding badToken_def assms ..

lemma postWithToken_canonical:
  assumes "mapLegacyToken a = mapLegacyToken b"
  shows "postWithToken c st a params opts = postWithToken c st b params opts"
  unfolding postWithToken_def getToken_canonical[OF assms] badToken_canonical[OF assms] ..

lemma getToken_cached:
  "truthy (get_prop (tokens st) (mapLegacyToken tokenType @ ''token'')) \<Longrightarrow>
   getToken c st tokenType extra =
     (Resolved (get_prop (tokens st) (mapLegacyToken tokenType @ ''token'')), st)"
  by (simp add: getToken_def)

lemma getToken_fetch:
  assumes "\<not> truthy (get_prop (tokens st) (mapLegacyToken tokenType @ ''token''))"
  shows "\<exists>r. sent (snd (getToken c st tokenType extra)) = sent st @ [r] \<and> o_method r = Some ''GET''"
proof (cases rule: get_outcome[of c st "token_query extra" no_options])
  case (resolved res p r)
  then show ?thesis using assms by (auto simp: getToken_def Let_def)
next
  case (rejected e p r)
  then show ?thesis using assms by (auto simp: getToken_def Let_def)
qed

lemma getToken_resolved_cached:
  assumes "getToken c st tokenType extra = (Resolved t, st1)"
  shows "truthy (get_prop (tokens st1) (mapLegacyToken tokenType @ ''token''))"
    and "get_prop (tokens st1) (mapLegacyToken tokenType @ ''token'') = t"
    and "length (sent st1) \<le> Suc (length (sent st))"
proof -
  let ?n = "mapLegacyToken tokenType @ ''token''"
  show "truthy (get_prop (tokens st1) ?n)" "get_prop (tokens st1) ?n = t"
       "length (sent st1) \<le> Suc (length (sent st))"
  proof (atomize(full), cases "truthy (get_prop (tokens st) ?n)")
    case True
    with assms show "truthy (get_prop (tokens st1) ?n) \<and> get_prop (tokens st1) ?n = t \<and> length (sent st1) \<le> Suc (length (sent st))"
      by (auto simp: getToken_def)
  next
    case False
    show "truthy (get_prop (tokens st1) ?n) \<and> get_prop (tokens st1) ?n = t \<and> length (sent st1) \<le> Suc (length (sent st))"
    proof (cases rule: get_outcome[of c st "token_query extra" no_options])
      case (resolved res p r)
      then show ?thesis using assms False
        by (auto simp: getToken_def Let_def split: if_splits)
    next
      case (rejected e p r)
      then show ?thesis using assms False by (auto simp: getToken_def Let_def)
    qed
  qed
qed

lemma badToken_removes:
  "\<not> truthy (get_prop (tokens (badToken st tokenType)) (mapLegacyToken tokenType @ ''token''))"
  by (cases "tokens st") (auto simp: badToken_def Let_def lookup_delete_prop)

lemma badToken_others:
  "k \<noteq> mapLegacyToken tokenType @ ''token'' \<Longrightarrow>
   get_prop (tokens (badToken st tokenType)) k = get_prop (tokens st) k"
  by (cases "tokens st") (auto simp: badToken_def Let_def lookup_delete_prop)

lemma badToken_idem: "badToken (badToken st tokenType) tokenType = badToken st tokenType"
  using badToken_removes[of st tokenType] by (simp add: badToken_def[of "badToken st tokenType"] Let_def)

lemma badToken_sent: "sent (badToken st tokenType) = sent st"
  by (simp add: badToken_def Let_def)

text \<open>
  C6. A token is cached when the cache holds a truthy value under the canonical name
  followed by \<open>token\<close>; this is the test \<open>getToken\<close> makes. With a cached token,
  \<open>getToken\<close> resolves with it and leaves the state, the list of issued requests
  included, as it was. Without one it issues exactly one GET. When a call has resolved,
  the next call for the same type resolves with the same token from the state the first
  one left, issuing nothing, and the first issued at most one request. After \<open>badToken\<close>
  no token is cached for the type, the other entries are as before, a second \<open>badToken\<close>
  changes nothing, and the next \<open>getToken\<close> issues exactly one GET.
\<close>

theorem getToken_cache_protocol:
  "(truthy (get_prop (tokens st) (mapLegacyToken tokenType @ ''token'')) \<longrightarrow>
      getToken c st tokenType extra =
        (Resolved (get_prop (tokens st) (mapLegacyToken tokenType @ ''token'')), st))
   \<and> (\<not> truthy (get_prop (tokens st) (mapLegacyToken tokenType @ ''token'')) \<longrightarrow>
      (\<exists>r. sent (snd (getToken c st tokenType extra)) = sent st @ [r] \<and> o_method r = Some ''GET''))
   \<and> (getToken c st tokenType extra = (Resolved t, st1) \<longrightarrow>
      getToken c st1 tokenType extra' = (Resolved t, st1)
      \<and> length (sent st1) \<le> Suc (length (sent st)))
   \<and> \<not> truthy (get_prop (tokens (badToken st tokenType)) (mapLegacyToken tokenType @ ''token''))
   \<and> (\<forall>k. k \<noteq> mapLegacyToken tokenType @ ''token'' \<longrightarrow>
          get_prop (tokens (badToken st tokenType)) k = get_prop (tokens st) k)
   \<and> badToken (badToken st tokenType) tokenType = badToken st tokenType
   \<and> sent (badToken st tokenType) = sent st
   \<and> (\<exists>r. sent (snd (getToken c (badToken st tokenType) tokenType extra)) = sent st @ [r]
          \<and> o_method r = Some ''GET'')"
  using getToken_cached[of st tokenType c extra]
        getToken_fetch[of st tokenType c extra]
        getToken_resolved_cached[of c st tokenType extra t st1]
        getToken_cached[of st1 tokenType c extra']
        badToken_removes[of st tokenType] badToken_others[of _ tokenType st]
        badToken_idem[of st tokenType] badToken_sent[of st tokenType]
        getToken_fetch[OF badToken_removes[of st tokenType], of c extra]
  by (simp add: badToken_sent)

text \<open>
  C7. A \<open>getToken\<close> call that finds no cached token and whose GET resolves with the body
  \<open>res\<close>: when \<open>res.query.tokens\<close> is there, the cache becomes that object as a whole;
  the call resolves with the entry of the requested type when that entry is there, and
  rejects with code \<open>badnamedtoken\<close> when it is not; when \<open>res.query.tokens\<close> is
  missing the call rejects with code \<open>ok-but-empty\<close> and the cache is untouched.
\<close>

theorem getToken_network_outcomes:
  assumes "\<not> truthy (get_prop (tokens st) (mapLegacyToken tokenType @ ''token''))"
      and "get c st (token_query extra) no_options = (Resolved res, p, r, st1)"
  shows "(truthy (get_prop (get_prop res ''query'') ''tokens'')
          \<and> truthy (get_prop (get_prop (get_prop res ''query'') ''tokens'') (mapLegacyToken tokenType @ ''token'')) \<longrightarrow>
            getToken c st tokenType extra =
              (Resolved (get_prop (get_prop (get_prop res ''query'') ''tokens'') (mapLegacyToken tokenType @ ''token'')),
               st1\<lparr>tokens := get_prop (get_prop res ''query'') ''tokens''\<rparr>))
       \<and> (truthy (get_prop (get_prop res ''query'') ''tokens'')
          \<and> \<not> truthy (get_prop (get_prop (get_prop res ''query'') ''tokens'') (mapLegacyToken tokenType @ ''token'')) \<longrightarrow>
            (\<exists>e. getToken c st tokenType extra =
                   (Rejected e, st1\<lparr>tokens := get_prop (get_prop res ''query'') ''tokens''\<rparr>)
                 \<and> error_code e = JStr ''badnamedtoken''))
       \<and> (\<not> truthy (get_prop (get_prop res ''query'') ''tokens'') \<longrightarrow>
            (\<exists>e. getToken c st tokenType extra = (Rejected e, st1)
                 \<and> error_code e = JStr ''ok-but-empty''))"
  using assms
  by (simp add: getToken_def Let_def error_code_def error_object_def lookup_def)

theorem getToken_network_outcomes_witness:
  "getToken (example_client MWCC [tokens_response ''abc'']) new_instance ''csrf'' NoParams =
     (Resolved (JStr ''abc''),
      \<lparr>tokens = JObj [(''csrftoken'', JStr ''abc'')], aborts = 1,
       sent = [\<lparr>o_method = Some ''GET'',
                 o_params = Some [(''action'', JStr ''query''), (''format'', JStr ''json''),
                                  (''formatversion'', JStr ''2''), (''meta'', JStr ''tokens''),
                                  (''type'', JStr ''*'')],
                 o_data = NoBody\<rparr>]\<rparr>)
   \<and> (\<exists>e. fst (getToken (example_client MWCC [tokens_response ''abc'']) new_instance ''watch'' NoParams)
              = Rejected e \<and> error_code e = JStr ''badnamedtoken'')
   \<and> (\<exists>e. fst (getToken (example_client MWCC [success_response]) new_instance ''csrf'' NoParams)
              = Rejected e \<and> error_code e = JStr ''ok-but-empty'')"
proof -
  let ?r = "\<lparr>o_method = Some ''GET'',
             o_params = Some [(''action'', JStr ''query''), (''format'', JStr ''json''),
                              (''formatversion'', JStr ''2''), (''meta'', JStr ''tokens''),
                              (''type'', JStr ''*'')],
             o_data = NoBody\<rparr>"
  let ?res = "JObj [(''batchcomplete'', JBool True),
                    (''query'', JObj [(''tokens'', JObj [(''csrftoken'', JStr ''abc'')])])]"
  let ?st1 = "\<lparr>tokens = JObj [], aborts = 1, sent = [?r]\<rparr>"
  have g1: "get (example_client MWCC [tokens_response ''abc'']) new_instance (token_query NoParams) no_options
              = (Resolved ?res, token_query NoParams, ?r, ?st1)"
    by code_simp
  have g2: "get (example_client MWCC [success_response]) new_instance (token_query NoParams) no_options
              = (Resolved (JObj [(''edit'', JObj [(''result'', JStr ''Success'')])]),
                 token_query NoParams, ?r, ?st1)"
    by code_simp
  have n1: "\<not> truthy (get_prop (tokens new_instance) (mapLegacyToken ''csrf'' @ ''token''))"
           "\<not> truthy (get_prop (tokens new_instance) (mapLegacyToken ''watch'' @ ''token''))"
    by code_simp+
  show ?thesis
    using getToken_network_outcomes[OF n1(1) g1] getToken_network_outcomes[OF n1(2) g1]
          getToken_network_outcomes[OF n1(1) g2]
    by (auto simp: lookup_def mapLegacyToken_def csrfActions_def)
qed

theorem getToken_cache_protocol_witness:
  "fst (getToken (example_client MWCC [tokens_response ''abc'']) new_instance ''csrf'' NoParams)
     = Resolved (JStr ''abc'')
   \<and> getToken (example_client MWCC [tokens_response ''abc''])
         (snd (getToken (example_client MWCC [tokens_response ''abc'']) new_instance ''csrf'' NoParams))
         ''csrf'' (AssertString ''user'')
       = (Resolved (JStr ''abc''),
          snd (getToken (example_client MWCC [tokens_response ''abc'']) new_instance ''csrf'' NoParams))
   \<and> length (sent (snd (getToken (example_client MWCC [tokens_response ''abc'']) new_instance ''csrf'' NoParams)))
       \<le> Suc (length (sent new_instance))"
proof -
  have e: "fst (getToken (example_client MWCC [tokens_response ''abc'']) new_instance ''csrf'' NoParams)
             = Resolved (JStr ''abc'')"
    by code_simp
  show ?thesis
    using getToken_cache_protocol
            [of new_instance "''csrf''" "example_client MWCC [tokens_response ''abc'']" NoParams
                "JStr ''abc''"
                "snd (getToken (example_client MWCC [tokens_response ''abc'']) new_instance ''csrf'' NoParams)"
                "AssertString ''user''"]
          e
    by (metis prod.collapse)
qed

text \<open>
  C9. A legacy name is mapped to \<open>csrf\<close> and then \<open>getToken\<close>, \<open>badToken\<close> and
  \<open>postWithToken\<close> do what they do for \<open>csrf\<close>: the same outcome, the same state (cache
  and issued requests) and the same changes to the caller's objects. Any other name is
  returned as it is. (The deprecation notice on the console is outside the model.)
\<close>

theorem legacy_names_canonical:
  "(action \<in> set [''edit'', ''delete'', ''protect'', ''move'', ''block'', ''unblock'',
                   ''email'', ''import'', ''options''] \<longrightarrow>
      mapLegacyToken action = ''csrf''
      \<and> getToken c st action extra = getToken c st ''csrf'' extra
      \<and> badToken st action = badToken st ''csrf''
      \<and> postWithToken c st action params opts = postWithToken c st ''csrf'' params opts)
   \<and> (action \<notin> set [''edit'', ''delete'', ''protect'', ''move'', ''block'', ''unblock'',
                      ''email'', ''import'', ''options''] \<longrightarrow>
      mapLegacyToken action = action)"
proof (intro conjI impI)
  assume a: "action \<in> set [''edit'', ''delete'', ''protect'', ''move'', ''block'', ''unblock'',
                   ''email'', ''import'', ''options'']"
  then have m: "mapLegacyToken action = mapLegacyToken ''csrf''"
    unfolding mapLegacyToken_def csrfActions_def by simp
  show "mapLegacyToken action = ''csrf''" using m by (simp add: mapLegacyToken_csrf)
  show "getToken c st action extra = getToken c st ''csrf'' extra"
    by (rule getToken_canonical[OF m])
  show "badToken st action = badToken st ''csrf''"
    by (rule badToken_canonical[OF m])
  show "postWithToken c st action params opts = postWithToken c st ''csrf'' params opts"
    by (rule postWithToken_canonical[OF m])
next
  assume "action \<notin> set [''edit'', ''delete'', ''protect'', ''move'', ''block'', ''unblock'',
                   ''email'', ''import'', ''options'']"
  then show "mapLegacyToken action = action"
    unfolding mapLegacyToken_def csrfActions_def by simp
qed

theorem legacy_names_canonical_witness:
  "mapLegacyToken ''edit'' = ''csrf''
   \<and> getToken (example_client MWCC [tokens_response ''abc'']) new_instance ''edit'' NoParams
       = getToken (example_client MWCC [tokens_response ''abc'']) new_instance ''csrf'' NoParams
   \<and> badToken new_instance ''edit'' = badToken new_instance ''csrf''
   \<and> postWithToken (example_client MWCC [tokens_response ''abc'', success_response]) new_instance
         ''edit'' [(''action'', JStr ''edit'')] no_options
       = postWithToken (example_client MWCC [tokens_response ''abc'', success_response]) new_instance
           ''csrf'' [(''action'', JStr ''edit'')] no_options
   \<and> mapLegacyToken ''watch'' = ''watch''"
  using legacy_names_canonical[of "''edit''" "example_client MWCC [tokens_response ''abc'']"
          new_instance NoParams "[(''action'', JStr ''edit'')]" no_options]
        legacy_names_canonical[of "''edit''" "example_client MWCC [tokens_response ''abc'', success_response]"
          new_instance NoParams "[(''action'', JStr ''edit'')]" no_options]
        legacy_names_canonical[of "''watch''"]
  by simp

section \<open>The token travels last\<close>

lemma map_of_assign1_fold:
  assumes "k \<noteq> ''__proto__''"
  shows "(map_of (foldl (\<lambda>t (k, v). set_prop t k v) t es) k = None)
           = (map_of t k = None \<and> map_of es k = None)"
proof (induction es arbitrary: t)
  case Nil
  then show ?case by simp
next
  case (Cons a es)
  obtain k' v' where a: "a = (k', v')" by (cases a)
  show ?case
    using assms by (auto simp: a Cons.IH map_of_set_prop assignable_def)
qed

lemma map_of_assign1_None:
  "k \<noteq> ''__proto__'' \<Longrightarrow>
   map_of (assign1 t src) k = None \<longleftrightarrow> map_of t k = None \<and> map_of (own_entries src) k = None"
  by (simp add: assign1_def map_of_assign1_fold)

lemma map_of_assign_None:
  "k \<noteq> ''__proto__'' \<Longrightarrow>
   map_of (assign t srcs) k = None
     \<longleftrightarrow> map_of t k = None \<and> (\<forall>src \<in> set srcs. map_of (own_entries src) k = None)"
  unfolding assign_def
  by (induction srcs arbitrary: t) (auto simp: map_of_assign1_None)

lemma last_set_prop_new:
  "map_of ps k = None \<Longrightarrow> array_index k = None \<Longrightarrow> k \<noteq> ''__proto__'' \<Longrightarrow>
   set_prop ps k v = ps @ [(k, v)]"
  by (simp add: set_prop_def define_prop_def)

lemma array_index_token: "array_index ''token'' = None"
  by (simp add: array_index_def is_digit_def)

lemma map_of_defaults_token: "map_of defaults ''token'' = None"
  by (simp add: defaults_def)

lemma form_pairs_append: "form_pairs (d @ [(k, v)]) = form_pairs d @ [(k, String v)]"
  by (simp add: form_pairs_def)

lemma token_extracted:
  assumes "lookup parameters ''token'' = JStr t"
  shows "map_of (preprocessParameters (delete_prop parameters ''token'')) ''token'' = None"
  by (simp add: map_of_preprocessParameters map_of_delete_prop)


lemma lookup_delete_prop_same: "lookup (delete_prop ps k) k = JUndefined"
  by (simp add: lookup_def map_of_delete_prop)

lemma map_of_form_pairs: "map_of (form_pairs d) k = map_option String (map_of d k)"
  by (induction d) (auto simp: form_pairs_def)

text \<open>A string token leaves the caller's map, whatever becomes of the call.\<close>

lemma ajax_string_token_removed:
  assumes "lookup parameters ''token'' = JStr t"
  shows "map_of (fst (snd (ajax c st parameters opts))) ''token'' = None"
  using assms token_extracted[OF assms]
  by (simp add: ajax_def Let_def issue_def split: body.splits)

text \<open>An empty-string token: the call is the call without the key.\<close>

lemma ajax_empty_token:
  assumes "lookup parameters ''token'' = JStr []"
  shows "ajax c st parameters opts = ajax c st (delete_prop parameters ''token'') opts"
  using assms by (simp add: ajax_def lookup_delete_prop_same)

lemma ajax_get_token_last:
  assumes tok: "lookup parameters ''token'' = JStr t" "t \<noteq> []"
      and g: "is_GET (choose_method (o_method opts) (defaults_method c))"
      and dp: "map_of (own_entries (defaults_params c)) ''token'' = None"
      and op: "o_params opts = None \<or> (\<exists>p. o_params opts = Some p \<and> map_of p ''token'' = None)"
  shows "\<exists>r q. sent (snd (snd (snd (ajax c st parameters opts)))) = sent st @ [r]
             \<and> o_params r = Some (q @ [(''token'', JStr t)])"
proof -
  let ?p2 = "preprocessParameters (delete_prop parameters ''token'')"
  let ?p0 = "case o_params opts of Some p \<Rightarrow> p | None \<Rightarrow> []"
  have p2: "map_of ?p2 ''token'' = None" by (rule token_extracted[OF tok(1)])
  have "map_of ?p0 ''token'' = None" using op by auto
  then have "map_of (assign ?p0 [defaults_params c, JObj defaults, JObj ?p2]) ''token'' = None"
    using dp p2 by (simp add: map_of_assign_None map_of_defaults_token)
  then show ?thesis using g tok
    by (simp add: ajax_def Let_def issue_def last_set_prop_new array_index_token)
qed

lemma ajax_post_token_last:
  assumes tok: "lookup parameters ''token'' = JStr t" "t \<noteq> []"
      and g: "\<not> is_GET (choose_method (o_method opts) (defaults_method c))"
      and dd: "map_of (own_entries (defaults_data c)) ''token'' = None"
      and od: "o_data opts = NoBody \<or> o_data opts = BodyString []
               \<or> (\<exists>d. o_data opts = BodyObject d \<and> map_of d ''token'' = None)"
  shows "\<exists>r q. sent (snd (snd (snd (ajax c st parameters opts)))) = sent st @ [r]
             \<and> o_data r = encode (impl c) (q @ [(''token'', t)])"
proof -
  let ?p2 = "preprocessParameters (delete_prop parameters ''token'')"
  have p2: "map_of ?p2 ''token'' = None" by (rule token_extracted[OF tok(1)])
  have a: "map_of (assign [] [defaults_data c, JObj defaults, JObj ?p2]) ''token'' = None"
    using dd p2 by (simp add: map_of_assign_None map_of_defaults_token)
  from od consider "o_data opts = NoBody" | "o_data opts = BodyString []"
    | d where "o_data opts = BodyObject d" "map_of d ''token'' = None" by blast
  then show ?thesis
  proof cases
    case 1
    then show ?thesis using g tok a
      by (simp add: ajax_def Let_def issue_def last_set_prop_new array_index_token form_pairs_append)
         (rule exI, rule refl)
  next
    case 2
    then show ?thesis using g tok a
      by (simp add: ajax_def Let_def issue_def last_set_prop_new array_index_token form_pairs_append)
         (rule exI, rule refl)
  next
    case 3
    then have "map_of (assign d [defaults_data c, JObj defaults, JObj ?p2]) ''token'' = None"
      using dd p2 by (simp add: map_of_assign_None map_of_defaults_token)
    then show ?thesis using g tok 3
      by (simp add: ajax_def Let_def issue_def last_set_prop_new array_index_token form_pairs_append)
         (rule exI, rule refl)
  qed
qed

lemma ajax_get_empty_token:
  assumes tok: "lookup parameters ''token'' = JStr []"
      and g: "is_GET (choose_method (o_method opts) (defaults_method c))"
      and dp: "map_of (own_entries (defaults_params c)) ''token'' = None"
      and op: "o_params opts = None \<or> (\<exists>p. o_params opts = Some p \<and> map_of p ''token'' = None)"
  shows "\<exists>r p. sent (snd (snd (snd (ajax c st parameters opts)))) = sent st @ [r]
             \<and> o_params r = Some p \<and> map_of p ''token'' = None"
proof -
  let ?p2 = "preprocessParameters (delete_prop parameters ''token'')"
  let ?p0 = "case o_params opts of Some p \<Rightarrow> p | None \<Rightarrow> []"
  have p2: "map_of ?p2 ''token'' = None" by (rule token_extracted[OF tok(1)])
  have "map_of ?p0 ''token'' = None" using op by auto
  then have "map_of (assign ?p0 [defaults_params c, JObj defaults, JObj ?p2]) ''token'' = None"
    using dp p2 by (simp add: map_of_assign_None map_of_defaults_token)
  then show ?thesis using g tok
    by (simp add: ajax_def Let_def issue_def)
qed

lemma ajax_post_empty_token:
  assumes tok: "lookup parameters ''token'' = JStr []"
      and g: "\<not> is_GET (choose_method (o_method opts) (defaults_method c))"
      and dd: "map_of (own_entries (defaults_data c)) ''token'' = None"
      and od: "o_data opts = NoBody \<or> o_data opts = BodyString []
               \<or> (\<exists>d. o_data opts = BodyObject d \<and> map_of d ''token'' = None)"
  shows "\<exists>r q. sent (snd (snd (snd (ajax c st parameters opts)))) = sent st @ [r]
             \<and> o_data r = encode (impl c) q \<and> map_of q ''token'' = None"
proof -
  let ?p2 = "preprocessParameters (delete_prop parameters ''token'')"
  have p2: "map_of ?p2 ''token'' = None" by (rule token_extracted[OF tok(1)])
  have a: "map_of (form_pairs (assign [] [defaults_data c, JObj defaults, JObj ?p2])) ''token'' = None"
    using dd p2 by (simp add: map_of_form_pairs map_of_assign_None map_of_defaults_token)
  from od consider "o_data opts = NoBody" | "o_data opts = BodyString []"
    | d where "o_data opts = BodyObject d" "map_of d ''token'' = None" by blast
  then show ?thesis
  proof cases
    case 1
    then show ?thesis using g tok a
      by (simp add: ajax_def Let_def issue_def) (rule exI, rule conjI, rule refl, assumption)
  next
    case 2
    then show ?thesis using g tok a
      by (simp add: ajax_def Let_def issue_def) (rule exI, rule conjI, rule refl, assumption)
  next
    case 3
    then have "map_of (form_pairs (assign d [defaults_data c, JObj defaults, JObj ?p2])) ''token'' = None"
      using dd p2 by (simp add: map_of_form_pairs map_of_assign_None map_of_defaults_token)
    then show ?thesis using g tok 3
      by (simp add: ajax_def Let_def issue_def) (rule exI, rule conjI, rule refl, assumption)
  qed
qed

text \<open>
  A token that is not a string is not taken out: the whole map is normalised and goes
  into the target object like every other parameter, with no step of its own.
\<close>

lemma ajax_other_token:
  assumes tok: "\<forall>s. lookup parameters ''token'' \<noteq> JStr s"
  shows "fst (snd (ajax c st parameters opts)) = preprocessParameters parameters"
    and "is_GET (choose_method (o_method opts) (defaults_method c)) \<Longrightarrow>
         \<exists>r. sent (snd (snd (snd (ajax c st parameters opts)))) = sent st @ [r]
            \<and> o_params r = Some (assign (case o_params opts of Some p \<Rightarrow> p | None \<Rightarrow> [])
                                   [defaults_params c, JObj defaults, JObj (preprocessParameters parameters)])"
    and "\<not> is_GET (choose_method (o_method opts) (defaults_method c)) \<Longrightarrow>
         o_data opts = NoBody \<or> o_data opts = BodyString [] \<or> (\<exists>d. o_data opts = BodyObject d) \<Longrightarrow>
         \<exists>r. sent (snd (snd (snd (ajax c st parameters opts)))) = sent st @ [r]
            \<and> o_data r = encode (impl c)
                 (form_pairs (assign (case o_data opts of BodyObject d \<Rightarrow> d | _ \<Rightarrow> [])
                                [defaults_data c, JObj defaults, JObj (preprocessParameters parameters)]))"
proof -
  have tk: "(case lookup parameters ''token'' of JStr t \<Rightarrow> (t, delete_prop parameters ''token'')
            | _ \<Rightarrow> ([], parameters)) = ([], parameters)"
    using tok by (cases "lookup parameters ''token''") simp_all
  show "fst (snd (ajax c st parameters opts)) = preprocessParameters parameters"
    by (simp add: ajax_def tk Let_def issue_def split: body.splits)
  show "\<exists>r. sent (snd (snd (snd (ajax c st parameters opts)))) = sent st @ [r]
            \<and> o_params r = Some (assign (case o_params opts of Some p \<Rightarrow> p | None \<Rightarrow> [])
                                   [defaults_params c, JObj defaults, JObj (preprocessParameters parameters)])"
    if "is_GET (choose_method (o_method opts) (defaults_method c))"
    using that by (simp add: ajax_def tk Let_def issue_def)
  show "\<exists>r. sent (snd (snd (snd (ajax c st parameters opts)))) = sent st @ [r]
            \<and> o_data r = encode (impl c)
                 (form_pairs (assign (case o_data opts of BodyObject d \<Rightarrow> d | _ \<Rightarrow> [])
                                [defaults_data c, JObj defaults, JObj (preprocessParameters parameters)]))"
    if "\<not> is_GET (choose_method (o_method opts) (defaults_method c))"
       "o_data opts = NoBody \<or> o_data opts = BodyString [] \<or> (\<exists>d. o_data opts = BodyObject d)"
    using that by (auto simp add: ajax_def tk Let_def issue_def)
qed


text \<open>
  C8, as amended. \<open>ajax\<close> takes the token out of the map only when it is a string
  (\<open>typeof parameters.token === 'string'\<close>) and puts it back only when that string is
  not empty (\<open>if (token)\<close>).
  \<^item> A string token, empty or not: the caller's map has no \<open>token\<close> key afterwards.
  \<^item> A non-empty string token, GET: when \<open>options.params\<close> (absent or an object) and the
    client's default \<open>params\<close> have no \<open>token\<close> entry, exactly one request is issued and the
    token is the last entry of its query-string map.
  \<^item> A non-empty string token, any other method: when \<open>options.data\<close> is absent, the empty
    string or a plain object without a \<open>token\<close> entry, and the client's default \<open>data\<close> have
    none, exactly one request is issued and the token is the last pair of its body.
  \<^item> An empty-string token: the call is the same call without the key, and under the
    conditions above the request carries no \<open>token\<close> entry.
  \<^item> A token that is not a string: the caller's map afterwards is the normalisation of the
    whole map, and the payload is the target object with the client's defaults, the fixed
    defaults and that whole map assigned in this order, nothing moved.
\<close>

theorem ajax_token_last:
  "(lookup parameters ''token'' = JStr t \<longrightarrow>
      map_of (fst (snd (ajax c st parameters opts))) ''token'' = None)
   \<and> (lookup parameters ''token'' = JStr t \<and> t \<noteq> []
      \<and> is_GET (choose_method (o_method opts) (defaults_method c))
      \<and> map_of (own_entries (defaults_params c)) ''token'' = None
      \<and> (o_params opts = None \<or> (\<exists>p. o_params opts = Some p \<and> map_of p ''token'' = None))
      \<longrightarrow> (\<exists>r q. sent (snd (snd (snd (ajax c st parameters opts)))) = sent st @ [r]
                 \<and> o_params r = Some (q @ [(''token'', JStr t)])))
   \<and> (lookup parameters ''token'' = JStr t \<and> t \<noteq> []
      \<and> \<not> is_GET (choose_method (o_method opts) (defaults_method c))
      \<and> map_of (own_entries (defaults_data c)) ''token'' = None
      \<and> (o_data opts = NoBody \<or> o_data opts = BodyString []
           \<or> (\<exists>d. o_data opts = BodyObject d \<and> map_of d ''token'' = None))
      \<longrightarrow> (\<exists>r q. sent (snd (snd (snd (ajax c st parameters opts)))) = sent st @ [r]
                 \<and> o_data r = encode (impl c) (q @ [(''token'', t)])))
   \<and> (lookup parameters ''token'' = JStr [] \<longrightarrow>
        ajax c st parameters opts = ajax c st (delete_prop parameters ''token'') opts)
   \<and> (lookup parameters ''token'' = JStr []
      \<and> is_GET (choose_method (o_method opts) (defaults_method c))
      \<and> map_of (own_entries (defaults_params c)) ''token'' = None
      \<and> (o_params opts = None \<or> (\<exists>p. o_params opts = Some p \<and> map_of p ''token'' = None))
      \<longrightarrow> (\<exists>r p. sent (snd (snd (snd (ajax c st parameters opts)))) = sent st @ [r]
                 \<and> o_params r = Some p \<and> map_of p ''token'' = None))
   \<and> (lookup parameters ''token'' = JStr []
      \<and> \<not> is_GET (choose_method (o_method opts) (defaults_method c))
      \<and> map_of (own_entries (defaults_data c)) ''token'' = None
      \<and> (o_data opts = NoBody \<or> o_data opts = BodyString []
           \<or> (\<exists>d. o_data opts = BodyObject d \<and> map_of d ''token'' = None))
      \<longrightarrow> (\<exists>r q. sent (snd (snd (snd (ajax c st parameters opts)))) = sent st @ [r]
                 \<and> o_data r = encode (impl c) q \<and> map_of q ''token'' = None))
   \<and> ((\<forall>s. lookup parameters ''token'' \<noteq> JStr s) \<longrightarrow>
        fst (snd (ajax c st parameters opts)) = preprocessParameters parameters
      \<and> (is_GET (choose_method (o_method opts) (defaults_method c)) \<longrightarrow>
           (\<exists>r. sent (snd (snd (snd (ajax c st parameters opts)))) = sent st @ [r]
              \<and> o_params r = Some (assign (case o_params opts of Some p \<Rightarrow> p | None \<Rightarrow> [])
                     [defaults_params c, JObj defaults, JObj (preprocessParameters parameters)])))
      \<and> (\<not> is_GET (choose_method (o_method opts) (defaults_method c))
          \<and> (o_data opts = NoBody \<or> o_data opts = BodyString [] \<or> (\<exists>d. o_data opts = BodyObject d))
          \<longrightarrow>
           (\<exists>r. sent (snd (snd (snd (ajax c st parameters opts)))) = sent st @ [r]
              \<and> o_data r = encode (impl c)
                   (form_pairs (assign (case o_data opts of BodyObject d \<Rightarrow> d | _ \<Rightarrow> [])
                      [defaults_data c, JObj defaults, JObj (preprocessParameters parameters)])))))"
proof (intro conjI impI)
  assume "lookup parameters ''token'' = JStr t"
  then show "map_of (fst (snd (ajax c st parameters opts))) ''token'' = None"
    by (rule ajax_string_token_removed)
next
  assume "lookup parameters ''token'' = JStr t \<and> t \<noteq> []
      \<and> is_GET (choose_method (o_method opts) (defaults_method c))
      \<and> map_of (own_entries (defaults_params c)) ''token'' = None
      \<and> (o_params opts = None \<or> (\<exists>p. o_params opts = Some p \<and> map_of p ''token'' = None))"
  then show "\<exists>r q. sent (snd (snd (snd (ajax c st parameters opts)))) = sent st @ [r]
                 \<and> o_params r = Some (q @ [(''token'', JStr t)])"
    using ajax_get_token_last[of parameters t opts c st] by blast
next
  assume "lookup parameters ''token'' = JStr t \<and> t \<noteq> []
      \<and> \<not> is_GET (choose_method (o_method opts) (defaults_method c))
      \<and> map_of (own_entries (defaults_data c)) ''token'' = None
      \<and> (o_data opts = NoBody \<or> o_data opts = BodyString []
           \<or> (\<exists>d. o_data opts = BodyObject d \<and> map_of d ''token'' = None))"
  then show "\<exists>r q. sent (snd (snd (snd (ajax c st parameters opts)))) = sent st @ [r]
                 \<and> o_data r = encode (impl c) (q @ [(''token'', t)])"
    using ajax_post_token_last[of parameters t opts c st] by blast
next
  assume "lookup parameters ''token'' = JStr []"
  then show "ajax c st parameters opts = ajax c st (delete_prop parameters ''token'') opts"
    by (rule ajax_empty_token)
next
  assume "lookup parameters ''token'' = JStr []
      \<and> is_GET (choose_method (o_method opts) (defaults_method c))
      \<and> map_of (own_entries (defaults_params c)) ''token'' = None
      \<and> (o_params opts = None \<or> (\<exists>p. o_params opts = Some p \<and> map_of p ''token'' = None))"
  then show "\<exists>r p. sent (snd (snd (snd (ajax c st parameters opts)))) = sent st @ [r]
                 \<and> o_params r = Some p \<and> map_of p ''token'' = None"
    using ajax_get_empty_token[of parameters opts c st] by blast
next
  assume "lookup parameters ''token'' = JStr []
      \<and> \<not> is_GET (choose_method (o_method opts) (defaults_method c))
      \<and> map_of (own_entries (defaults_data c)) ''token'' = None
      \<and> (o_data opts = NoBody \<or> o_data opts = BodyString []
           \<or> (\<exists>d. o_data opts = BodyObject d \<and> map_of d ''token'' = None))"
  then show "\<exists>r q. sent (snd (snd (snd (ajax c st parameters opts)))) = sent st @ [r]
                 \<and> o_data r = encode (impl c) q \<and> map_of q ''token'' = None"
    using ajax_post_empty_token[of parameters opts c st] by blast
next
  assume "\<forall>s. lookup parameters ''token'' \<noteq> JStr s"
  then show "fst (snd (ajax c st parameters opts)) = preprocessParameters parameters"
    by (rule ajax_other_token(1))
next
  assume "\<forall>s. lookup parameters ''token'' \<noteq> JStr s"
     and "is_GET (choose_method (o_method opts) (defaults_method c))"
  then show "\<exists>r. sent (snd (snd (snd (ajax c st parameters opts)))) = sent st @ [r]
              \<and> o_params r = Some (assign (case o_params opts of Some p \<Rightarrow> p | None \<Rightarrow> [])
                     [defaults_params c, JObj defaults, JObj (preprocessParameters parameters)])"
    by (rule ajax_other_token(2))
next
  assume a: "\<forall>s. lookup parameters ''token'' \<noteq> JStr s"
     and b: "\<not> is_GET (choose_method (o_method opts) (defaults_method c))
          \<and> (o_data opts = NoBody \<or> o_data opts = BodyString [] \<or> (\<exists>d. o_data opts = BodyObject d))"
  from b have b1: "\<not> is_GET (choose_method (o_method opts) (defaults_method c))"
    and b2: "o_data opts = NoBody \<or> o_data opts = BodyString [] \<or> (\<exists>d. o_data opts = BodyObject d)"
    by simp_all
  show "\<exists>r. sent (snd (snd (snd (ajax c st parameters opts)))) = sent st @ [r]
              \<and> o_data r = encode (impl c)
                   (form_pairs (assign (case o_data opts of BodyObject d \<Rightarrow> d | _ \<Rightarrow> [])
                      [defaults_data c, JObj defaults, JObj (preprocessParameters parameters)]))"
    by (rule ajax_other_token(3)[OF a b1 b2])
qed

text \<open>
  The theorem at work on a fresh client whose method defaults to GET: a token \<open>abc\<close>
  travels last in a POST body and in a GET query; an empty token leaves a GET and a POST
  without a \<open>token\<close> entry; a numeric token stays in the caller's map.
\<close>

theorem ajax_token_last_witness:
  "map_of (fst (snd (ajax (example_client MWCCStatic [success_response]) new_instance
                      [(''token'', JStr ''abc''), (''action'', JStr ''edit''), (''minor'', JBool False)]
                      (no_options\<lparr>o_method := Some ''POST''\<rparr>)))) ''token'' = None
   \<and> (\<exists>r. sent (snd (snd (snd (ajax (example_client MWCCStatic [success_response]) new_instance
                      [(''token'', JStr ''abc''), (''action'', JStr ''edit''), (''minor'', JBool False)]
                      (no_options\<lparr>o_method := Some ''POST''\<rparr>))))) = [r]
         \<and> (\<exists>q. o_data r = BodyForm (q @ [(''token'', ''abc'')])))
   \<and> (\<exists>r. sent (snd (snd (snd (ajax (example_client MWCCStatic [success_response]) new_instance
                      [(''token'', JStr ''abc''), (''action'', JStr ''edit''), (''minor'', JBool False)]
                      no_options)))) = [r]
         \<and> (\<exists>q. o_params r = Some (q @ [(''token'', JStr ''abc'')])))
   \<and> ajax (example_client MWCC [success_response]) new_instance
          [(''token'', JStr []), (''title'', JStr ''Sandbox'')] no_options
     = ajax (example_client MWCC [success_response]) new_instance
          (delete_prop [(''token'', JStr []), (''title'', JStr ''Sandbox'')] ''token'') no_options
   \<and> (\<exists>r p. sent (snd (snd (snd (ajax (example_client MWCC [success_response]) new_instance
                      [(''token'', JStr []), (''title'', JStr ''Sandbox'')] no_options)))) = [r]
         \<and> o_params r = Some p \<and> map_of p ''token'' = None)
   \<and> (\<exists>r q. sent (snd (snd (snd (ajax (example_client MWCC [success_response]) new_instance
                      [(''token'', JStr []), (''title'', JStr ''Sandbox'')]
                      (no_options\<lparr>o_method := Some ''POST''\<rparr>))))) = [r]
         \<and> o_data r = BodyString q \<and> map_of q ''token'' = None)
   \<and> fst (snd (ajax (example_client MWCC [success_response]) new_instance
                 [(''token'', JNum 123), (''title'', JStr ''Sandbox'')] no_options))
     = preprocessParameters [(''token'', JNum 123), (''title'', JStr ''Sandbox'')]
   \<and> (\<exists>r. sent (snd (snd (snd (ajax (example_client MWCC [success_response]) new_instance
                      [(''token'', JNum 123), (''title'', JStr ''Sandbox'')] no_options)))) = [r]
         \<and> o_params r = Some (assign [] [JUndefined, JObj defaults,
                 JObj (preprocessParameters [(''token'', JNum 123), (''title'', JStr ''Sandbox'')])]))
   \<and> (\<exists>r. sent (snd (snd (snd (ajax (example_client MWCC [success_response]) new_instance
                      [(''token'', JNum 123), (''title'', JStr ''Sandbox'')]
                      (no_options\<lparr>o_method := Some ''POST''\<rparr>))))) = [r]
         \<and> o_data r = BodyString (form_pairs (assign [] [JUndefined, JObj defaults,
                 JObj (preprocessParameters [(''token'', JNum 123), (''title'', JStr ''Sandbox'')])])))"
proof -
  have e: "lookup [(''token'', JStr ''abc''), (''action'', JStr ''edit''), (''minor'', JBool False)] ''token''
             = JStr ''abc''"
          "lookup [(''token'', JStr []), (''title'', JStr ''Sandbox'')] ''token'' = JStr []"
          "lookup [(''token'', JNum 123), (''title'', JStr ''Sandbox'')] ''token'' = JNum 123"
          "\<And>i rs. defaults_params (example_client i rs) = JUndefined"
          "\<And>i rs. defaults_data (example_client i rs) = JUndefined"
          "\<And>i rs. impl (example_client i rs) = i"
          "\<And>i rs. \<not> is_GET (choose_method (o_method (no_options\<lparr>o_method := Some ''POST''\<rparr>))
                            (defaults_method (example_client i rs)))"
          "\<And>i rs. is_GET (choose_method (o_method no_options) (defaults_method (example_client i rs)))"
          "o_params no_options = None" "o_data no_options = NoBody"
          "o_params (no_options\<lparr>o_method := Some ''POST''\<rparr>) = None"
          "o_data (no_options\<lparr>o_method := Some ''POST''\<rparr>) = NoBody"
          "sent new_instance = []"
    by (simp_all add: lookup_def example_client_def no_options_def choose_method_def is_GET_def
                      new_instance_def)
  note s = e encode_def lookup_def example_client_def no_options_def choose_method_def
           is_GET_def new_instance_def
  have w1: "map_of (fst (snd (ajax (example_client MWCCStatic [success_response]) new_instance
                      [(''token'', JStr ''abc''), (''action'', JStr ''edit''), (''minor'', JBool False)]
                      (no_options\<lparr>o_method := Some ''POST''\<rparr>)))) ''token'' = None"
    using ajax_token_last[of "[(''token'', JStr ''abc''), (''action'', JStr ''edit''), (''minor'', JBool False)]"
                             "''abc''" "example_client MWCCStatic [success_response]" new_instance
                             "no_options\<lparr>o_method := Some ''POST''\<rparr>", THEN conjunct1]
    by (simp add: s)
  have w2: "\<exists>r. sent (snd (snd (snd (ajax (example_client MWCCStatic [success_response]) new_instance
                      [(''token'', JStr ''abc''), (''action'', JStr ''edit''), (''minor'', JBool False)]
                      (no_options\<lparr>o_method := Some ''POST''\<rparr>))))) = [r]
         \<and> (\<exists>q. o_data r = BodyForm (q @ [(''token'', ''abc'')]))"
    using ajax_token_last[of "[(''token'', JStr ''abc''), (''action'', JStr ''edit''), (''minor'', JBool False)]"
                             "''abc''" "example_client MWCCStatic [success_response]" new_instance
                             "no_options\<lparr>o_method := Some ''POST''\<rparr>",
                          THEN conjunct2, THEN conjunct2, THEN conjunct1]
    by (simp add: s)
  have w3: "\<exists>r. sent (snd (snd (snd (ajax (example_client MWCCStatic [success_response]) new_instance
                      [(''token'', JStr ''abc''), (''action'', JStr ''edit''), (''minor'', JBool False)]
                      no_options)))) = [r]
         \<and> (\<exists>q. o_params r = Some (q @ [(''token'', JStr ''abc'')]))"
    using ajax_token_last[of "[(''token'', JStr ''abc''), (''action'', JStr ''edit''), (''minor'', JBool False)]"
                             "''abc''" "example_client MWCCStatic [success_response]" new_instance
                             no_options, THEN conjunct2, THEN conjunct1]
    by (simp add: s)
  have w4: "ajax (example_client MWCC [success_response]) new_instance
              [(''token'', JStr []), (''title'', JStr ''Sandbox'')] no_options
            = ajax (example_client MWCC [success_response]) new_instance
              (delete_prop [(''token'', JStr []), (''title'', JStr ''Sandbox'')] ''token'') no_options"
    using ajax_token_last[of "[(''token'', JStr []), (''title'', JStr ''Sandbox'')]"
                             "[]" "example_client MWCC [success_response]" new_instance no_options,
                          THEN conjunct2, THEN conjunct2, THEN conjunct2, THEN conjunct1]
    by (simp add: e)
  have w5: "\<exists>r p. sent (snd (snd (snd (ajax (example_client MWCC [success_response]) new_instance
                      [(''token'', JStr []), (''title'', JStr ''Sandbox'')] no_options)))) = [r]
         \<and> o_params r = Some p \<and> map_of p ''token'' = None"
    using ajax_token_last[of "[(''token'', JStr []), (''title'', JStr ''Sandbox'')]"
                             "[]" "example_client MWCC [success_response]" new_instance no_options,
                          THEN conjunct2, THEN conjunct2, THEN conjunct2, THEN conjunct2, THEN conjunct1]
    by (simp add: s)
  have w6: "\<exists>r q. sent (snd (snd (snd (ajax (example_client MWCC [success_response]) new_instance
                      [(''token'', JStr []), (''title'', JStr ''Sandbox'')]
                      (no_options\<lparr>o_method := Some ''POST''\<rparr>))))) = [r]
         \<and> o_data r = BodyString q \<and> map_of q ''token'' = None"
    using ajax_token_last[of "[(''token'', JStr []), (''title'', JStr ''Sandbox'')]"
                             "[]" "example_client MWCC [success_response]" new_instance
                             "no_options\<lparr>o_method := Some ''POST''\<rparr>",
                          THEN conjunct2, THEN conjunct2, THEN conjunct2, THEN conjunct2, THEN conjunct2,
                          THEN conjunct1]
    by (simp add: s)
  have w7: "fst (snd (ajax (example_client MWCC [success_response]) new_instance
                 [(''token'', JNum 123), (''title'', JStr ''Sandbox'')] no_options))
            = preprocessParameters [(''token'', JNum 123), (''title'', JStr ''Sandbox'')]
   \<and> (\<exists>r. sent (snd (snd (snd (ajax (example_client MWCC [success_response]) new_instance
                      [(''token'', JNum 123), (''title'', JStr ''Sandbox'')] no_options)))) = [r]
         \<and> o_params r = Some (assign [] [JUndefined, JObj defaults,
                 JObj (preprocessParameters [(''token'', JNum 123), (''title'', JStr ''Sandbox'')])]))"
    using ajax_token_last[of "[(''token'', JNum 123), (''title'', JStr ''Sandbox'')]"
                             "[]" "example_client MWCC [success_response]" new_instance no_options,
                          THEN conjunct2, THEN conjunct2, THEN conjunct2, THEN conjunct2, THEN conjunct2,
                          THEN conjunct2]
    by (simp add: s)
  have w8: "\<exists>r. sent (snd (snd (snd (ajax (example_client MWCC [success_response]) new_instance
                      [(''token'', JNum 123), (''title'', JStr ''Sandbox'')]
                      (no_options\<lparr>o_method := Some ''POST''\<rparr>))))) = [r]
         \<and> o_data r = BodyString (form_pairs (assign [] [JUndefined, JObj defaults,
                 JObj (preprocessParameters [(''token'', JNum 123), (''title'', JStr ''Sandbox'')])]))"
    using ajax_token_last[of "[(''token'', JNum 123), (''title'', JStr ''Sandbox'')]"
                             "[]" "example_client MWCC [success_response]" new_instance
                             "no_options\<lparr>o_method := Some ''POST''\<rparr>",
                          THEN conjunct2, THEN conjunct2, THEN conjunct2, THEN conjunct2, THEN conjunct2,
                          THEN conjunct2]
    by (simp add: s)
  from w1 w2 w3 w4 w5 w6 w7 w8 show ?thesis by blast
qed

text \<open>
  C8 as stated fails. A numeric \<open>token\<close> is not a string, so it stays where the caller
  put it and \<open>title\<close> travels after it; an empty-string \<open>token\<close> is taken out and not
  put back, so the request carries none; and a \<open>token\<close> entry that \<open>options.params\<close>
  already has keeps its place when the extracted token is written over it. So does one
  that comes from the client's default \<open>params\<close> or \<open>data\<close>, or that \<open>options.data\<close>
  already has. With a \<open>URLSearchParams\<close> in \<open>options.data\<close> the body is a copy of its
  entries, the token not among them, and with a non-empty string there nothing is sent.
\<close>

theorem ajax_token_last_counterexample:
  "lookup [(''token'', JNum 123), (''title'', JStr ''Sandbox'')] ''token'' = JNum 123
   \<and> map o_params (sent (snd (snd (snd (get (example_client MWCC [success_response]) new_instance
             [(''token'', JNum 123), (''title'', JStr ''Sandbox'')] no_options)))))
       = [Some [(''action'', JStr ''query''), (''format'', JStr ''json''), (''formatversion'', JStr ''2''),
                (''token'', JNum 123), (''title'', JStr ''Sandbox'')]]
   \<and> lookup [(''token'', JStr []), (''title'', JStr ''Sandbox'')] ''token'' = JStr []
   \<and> map o_data (sent (snd (snd (snd (post (example_client MWCC [success_response]) new_instance
             [(''token'', JStr []), (''title'', JStr ''Sandbox'')] no_options)))))
       = [BodyString [(''action'', ''query''), (''format'', ''json''), (''formatversion'', ''2''),
                      (''title'', ''Sandbox'')]]
   \<and> map o_params (sent (snd (snd (snd (get (example_client MWCC [success_response]) new_instance
             [(''token'', JStr ''abc''), (''title'', JStr ''Sandbox'')]
             (no_options\<lparr>o_params := Some [(''token'', JStr ''old''), (''uselang'', JStr ''en'')]\<rparr>))))))
       = [Some [(''token'', JStr ''abc''), (''uselang'', JStr ''en''), (''action'', JStr ''query''),
                (''format'', JStr ''json''), (''formatversion'', JStr ''2''), (''title'', JStr ''Sandbox'')]]
   \<and> map o_params (sent (snd (snd (snd (get
             ((example_client MWCC [success_response])\<lparr>defaults_params := JObj [(''token'', JStr ''old'')]\<rparr>)
             new_instance [(''token'', JStr ''abc''), (''title'', JStr ''Sandbox'')] no_options)))))
       = [Some [(''token'', JStr ''abc''), (''action'', JStr ''query''),
                (''format'', JStr ''json''), (''formatversion'', JStr ''2''), (''title'', JStr ''Sandbox'')]]
   \<and> map o_data (sent (snd (snd (snd (post
             ((example_client MWCC [success_response])\<lparr>defaults_data := JObj [(''token'', JStr ''old'')]\<rparr>)
             new_instance [(''token'', JStr ''abc''), (''title'', JStr ''Sandbox'')] no_options)))))
       = [BodyString [(''token'', ''abc''), (''action'', ''query''), (''format'', ''json''),
                      (''formatversion'', ''2''), (''title'', ''Sandbox'')]]
   \<and> map o_data (sent (snd (snd (snd (post (example_client MWCC [success_response]) new_instance
             [(''token'', JStr ''abc''), (''title'', JStr ''Sandbox'')]
             (no_options\<lparr>o_data := BodyObject [(''token'', JStr ''old''), (''uselang'', JStr ''en'')]\<rparr>))))))
       = [BodyString [(''token'', ''abc''), (''uselang'', ''en''), (''action'', ''query''),
                      (''format'', ''json''), (''formatversion'', ''2''), (''title'', ''Sandbox'')]]
   \<and> map o_data (sent (snd (snd (snd (post (example_client MWCCStatic [success_response]) new_instance
             [(''token'', JStr ''abc''), (''title'', JStr ''Sandbox'')]
             (no_options\<lparr>o_data := BodyForm [(''uselang'', ''en'')]\<rparr>))))))
       = [BodyForm [(''uselang'', ''en'')]]
   \<and> post (example_client MWCC [success_response]) new_instance
          [(''token'', JStr ''abc''), (''title'', JStr ''Sandbox'')]
          (no_options\<lparr>o_data := BodyString [(''uselang'', ''en'')]\<rparr>)
       = (Thrown TypeError, [(''title'', JStr ''Sandbox'')],
          no_options\<lparr>o_method := Some ''POST'', o_data := BodyString [(''uselang'', ''en'')]\<rparr>,
          new_instance)"
  by code_simp

section \<open>The token-guarded post\<close>

lemma assign_defaults_nonempty: "assign target [a, JObj defaults, b] \<noteq> []"
proof
  assume "assign target [a, JObj defaults, b] = []"
  then have "map_of (assign target [a, JObj defaults, b]) ''action'' = None" by simp
  then show False by (simp add: map_of_assign_None defaults_def)
qed

lemma set_prop_nonempty: "k \<noteq> ''__proto__'' \<Longrightarrow> set_prop ps k v \<noteq> []"
proof
  assume k: "k \<noteq> ''__proto__''" and "set_prop ps k v = []"
  then have "map_of (set_prop ps k v) k = None" by simp
  then show False using k by (simp add: map_of_set_prop assignable_def)
qed

lemma form_pairs_nonempty: "d \<noteq> [] \<Longrightarrow> form_pairs d \<noteq> []"
  by (simp add: form_pairs_def)

lemma choose_POST: "choose_method (o_method (opts\<lparr>o_method := Some ''POST''\<rparr>)) d = ''POST''"
  by (simp add: choose_method_def)

lemma encode_nonempty: "pairs \<noteq> [] \<Longrightarrow> \<exists>q. encode i pairs = encode i q \<and> q \<noteq> []"
  by blast

text \<open>What a POST does, by the shape of \<open>options.data\<close>.\<close>

lemma post_plain:
  assumes "o_data opts = NoBody \<or> (\<exists>d. o_data opts = BodyObject d) \<or> o_data opts = BodyString []"
  shows "\<exists>r p pairs. post c st ps opts =
           (settle (transport c (length (sent st)) r), p, r,
            st\<lparr>aborts := Suc (aborts st), sent := sent st @ [r]\<rparr>)
         \<and> o_method r = Some ''POST'' \<and> o_data r = encode (impl c) pairs \<and> pairs \<noteq> []"
  using assms
  by (auto simp: post_def ajax_def Let_def issue_def choose_method_Some not_is_GET_POST
                 assign_defaults_nonempty set_prop_nonempty form_pairs_nonempty
           split: prod.splits intro!: encode_nonempty)

lemma post_form_cases:
  assumes "o_data opts = BodyForm pairs"
  shows "(\<exists>p r. post c st ps opts = (Thrown TypeError, p, r, st))
       \<or> (\<exists>r p. post c st ps opts =
             (settle (transport c (length (sent st)) r), p, r,
              st\<lparr>aborts := Suc (aborts st), sent := sent st @ [r]\<rparr>)
           \<and> o_method r = Some ''POST'' \<and> o_data r = encode (impl c) pairs)"
  using assms
  by (simp add: post_def ajax_def Let_def issue_def choose_method_Some not_is_GET_POST
           split: prod.splits)

lemma no_size_normalised:
  assumes "map_of ps ''size'' = None"
  shows "map_of (preprocessParameters ps) ''size'' = None"
    and "map_of (preprocessParameters (delete_prop ps ''token'')) ''size'' = None"
  using assms by (simp_all add: map_of_preprocessParameters map_of_delete_prop)

lemma post_form:
  assumes "o_data opts = BodyForm pairs"
      and "map_of (own_entries (defaults_data c)) ''size'' = None"
      and "map_of ps ''size'' = None"
  shows "\<exists>r p. post c st ps opts =
           (settle (transport c (length (sent st)) r), p, r,
            st\<lparr>aborts := Suc (aborts st), sent := sent st @ [r]\<rparr>)
         \<and> o_method r = Some ''POST'' \<and> o_data r = encode (impl c) pairs"
  using assms no_size_normalised[OF assms(3)]
  by (cases "lookup ps ''token''")
     (simp_all add: post_def ajax_def Let_def issue_def choose_method_Some not_is_GET_POST
                    defaults_def map_add_def)

lemma post_string:
  assumes "o_data opts = BodyString pairs" "pairs \<noteq> []"
  shows "\<exists>p r. post c st ps opts = (Thrown TypeError, p, r, st) \<and> o_data r = BodyString pairs"
  using assms
  by (auto simp: post_def ajax_def Let_def issue_def choose_method_Some not_is_GET_POST split: prod.splits)

lemma post_not_thrown:
  assumes "post c st ps opts = (out, p, r, st')" "\<forall>e. out \<noteq> Thrown e"
  shows "\<exists>pairs. o_data r = encode (impl c) pairs
           \<and> (pairs \<noteq> [] \<or> o_data opts = BodyForm pairs)
           \<and> st' = st\<lparr>aborts := Suc (aborts st), sent := sent st @ [r]\<rparr>
           \<and> out = settle (transport c (length (sent st)) r) \<and> o_method r = Some ''POST''"
proof (cases "o_data opts")
  case NoBody
  then show ?thesis using post_plain[of opts c st ps] assms by auto
next
  case (BodyObject d)
  then show ?thesis using post_plain[of opts c st ps] assms by auto
next
  case (BodyString pairs)
  show ?thesis
  proof (cases "pairs = []")
    case True
    then show ?thesis using BodyString post_plain[of opts c st ps] assms by auto
  next
    case False
    then show ?thesis using BodyString post_string[of opts pairs c st ps] assms by auto
  qed
next
  case (BodyForm pairs)
  then show ?thesis using post_form_cases[of opts pairs c st ps] assms by auto
qed

text \<open>
  \<open>MWCC.postWithToken\<close>: once the first POST was rejected with \<open>badtoken\<close>, the promise
  is never resolved, whatever the retry produces.
\<close>

lemma postWithToken_MWCC_never_resolves:
  assumes "impl c = MWCC"
      and "getToken c st tokenType
             (Params [(''assert'', lookup params ''assert''), (''assertuser'', lookup params ''assertuser'')])
           = (Resolved token, st1)"
      and "post c st1 (set_prop params ''token'' token) opts = (Rejected err, params2, opts2, st2)"
      and "error_code err = JStr ''badtoken''"
  shows "fst (postWithToken c st tokenType params opts) \<noteq> Resolved v"
  using assms
  by (simp add: postWithToken_def Let_def retry_resolved_def split: prod.splits outcome.splits)

text \<open>
  \<open>MWCC.postWithToken\<close>: the first POST left its url-encoded body in \<open>options.data\<close>, so
  the retry throws in \<open>ajax\<close> before a request is made.
\<close>

lemma postWithToken_MWCC_retry_throws:
  assumes "impl c = MWCC"
      and "getToken c st tokenType
             (Params [(''assert'', lookup params ''assert''), (''assertuser'', lookup params ''assertuser'')])
           = (Resolved token, st1)"
      and "post c st1 (set_prop params ''token'' token) opts = (Rejected err, params2, opts2, st2)"
      and "error_code err = JStr ''badtoken''"
      and "getToken c (badToken st2 tokenType) tokenType
             (Params [(''assert'', lookup params ''assert''), (''assertuser'', lookup params ''assertuser'')])
           = (Resolved t, st4)"
      and "\<forall>pairs. o_data opts \<noteq> BodyForm pairs"
  shows "fst (postWithToken c st tokenType params opts) = Rejected TypeError"
    and "snd (snd (snd (postWithToken c st tokenType params opts))) = st4"
proof -
  obtain pairs where o2: "o_data opts2 = BodyString pairs" "pairs \<noteq> []"
    using post_not_thrown[OF assms(3)] assms(1,6) by (auto simp: encode_def)
  obtain p r where "post c st4 (set_prop (set_prop params2 ''token'' JUndefined) ''token'' t) opts2
                     = (Thrown TypeError, p, r, st4)"
    using post_string[OF o2] by blast
  then show "fst (postWithToken c st tokenType params opts) = Rejected TypeError"
    and "snd (snd (snd (postWithToken c st tokenType params opts))) = st4"
    using assms by (simp_all add: postWithToken_def Let_def)
qed

text \<open>
  \<open>MWCCStatic.postWithToken\<close>: after a first POST rejected with \<open>badtoken\<close> and a
  successful token fetch, exactly one more POST is issued and the promise settles with
  what that POST settles with, provided no parameter is named \<open>size\<close>.
\<close>

lemma postWithToken_MWCCStatic_retry:
  assumes "impl c = MWCCStatic"
      and "getToken c st tokenType
             (Params [(''assert'', lookup params ''assert''), (''assertuser'', lookup params ''assertuser'')])
           = (Resolved token, st1)"
      and "post c st1 (set_prop params ''token'' token) opts = (Rejected err, params2, opts2, st2)"
      and "error_code err = JStr ''badtoken''"
      and "getToken c (badToken st2 tokenType) tokenType
             (Params [(''assert'', lookup params ''assert''), (''assertuser'', lookup params ''assertuser'')])
           = (Resolved t, st4)"
      and "map_of (own_entries (defaults_data c)) ''size'' = None"
      and "map_of params2 ''size'' = None"
  shows "\<exists>r p. postWithToken c st tokenType params opts =
           (settle (transport c (length (sent st4)) r), p, r,
            st4\<lparr>aborts := Suc (aborts st4), sent := sent st4 @ [r]\<rparr>)
         \<and> o_method r = Some ''POST''"
proof -
  obtain pairs where o2: "o_data opts2 = BodyForm pairs"
    using post_not_thrown[OF assms(3)] assms(1) by (auto simp: encode_def)
  obtain r p where r: "post c st4 (set_prop (set_prop params2 ''token'' JUndefined) ''token'' t) opts2
                     = (settle (transport c (length (sent st4)) r), p, r,
                        st4\<lparr>aborts := Suc (aborts st4), sent := sent st4 @ [r]\<rparr>)"
                      "o_method r = Some ''POST''"
  proof -
    have "map_of (set_prop (set_prop params2 ''token'' JUndefined) ''token'' t) ''size'' = None"
      using assms(7) by (simp add: map_of_set_prop)
    from post_form[OF o2 assms(6) this, of st4] show ?thesis using that by blast
  qed
  from settle_cases[of "transport c (length (sent st4)) r"] show ?thesis
  proof
    assume "\<exists>v. settle (transport c (length (sent st4)) r) = Resolved v"
    then obtain v where "settle (transport c (length (sent st4)) r) = Resolved v" ..
    then show ?thesis using assms r
      by (simp add: postWithToken_def Let_def retry_resolved_def)
  next
    assume "\<exists>e. settle (transport c (length (sent st4)) r) = Rejected e"
    then obtain e where "settle (transport c (length (sent st4)) r) = Rejected e" ..
    then show ?thesis using assms r
      by (simp add: postWithToken_def Let_def retry_resolved_def)
  qed
qed

text \<open>
  C1, evaluated at a failing input. The session: the token query answers \<open>a\<close>, the POST
  is rejected with \<open>badtoken\<close>, the second token query answers \<open>b\<close>, and a further POST
  would succeed. \<open>MWCC.postWithToken\<close> (\<open>src/mwcc.ts\<close>) rejects with a \<open>TypeError\<close> after
  three requests, the second POST never made; the claim has it re-issue the POST once and
  resolve with what that attempt produces. \<open>MWCCStatic.postWithToken\<close> does so on the same
  session: four requests, resolved with the body of the second POST.
\<close>

theorem postWithToken_MWCC_retry:
  "fst (postWithToken
          (example_client MWCC [tokens_response ''a'', badtoken_response, tokens_response ''b'', success_response])
          new_instance ''csrf'' [(''action'', JStr ''edit''), (''title'', JStr ''Sandbox'')] no_options)
     = Rejected TypeError
   \<and> map o_method (sent (snd (snd (snd (postWithToken
          (example_client MWCC [tokens_response ''a'', badtoken_response, tokens_response ''b'', success_response])
          new_instance ''csrf'' [(''action'', JStr ''edit''), (''title'', JStr ''Sandbox'')] no_options)))))
     = [Some ''GET'', Some ''POST'', Some ''GET'']
   \<and> fst (postWithToken
          (example_client MWCCStatic [tokens_response ''a'', badtoken_response, tokens_response ''b'', success_response])
          new_instance ''csrf'' [(''action'', JStr ''edit''), (''title'', JStr ''Sandbox'')] no_options)
     = Resolved (JObj [(''edit'', JObj [(''result'', JStr ''Success'')])])
   \<and> map o_method (sent (snd (snd (snd (postWithToken
          (example_client MWCCStatic [tokens_response ''a'', badtoken_response, tokens_response ''b'', success_response])
          new_instance ''csrf'' [(''action'', JStr ''edit''), (''title'', JStr ''Sandbox'')] no_options)))))
     = [Some ''GET'', Some ''POST'', Some ''GET'', Some ''POST'']"
  by code_simp

section \<open>The continuation driver\<close>

text \<open>One step of the driver: the GET it issues and what becomes of the state.\<close>

lemma req_step:
  obtains r p where
    "get c st params no_options =
       (settle (transport c (length (sent st)) r), p, r,
        st\<lparr>aborts := Suc (aborts st), sent := sent st @ [r]\<rparr>)"
  using get_issues[of c st params no_options] by blast

lemma continues_Resolved:
  "continues out \<Longrightarrow> \<exists>res. out = Resolved res \<and> truthy (get_prop res ''continue'')"
  by (cases out) auto

lemma req_stops:
  assumes g: "get c st params no_options =
       (settle (transport c (length (sent st)) r), p, r,
        st\<lparr>aborts := Suc (aborts st), sent := sent st @ [r]\<rparr>)"
      and stop: "\<not> continues (settle (transport c (length (sent st)) r)) \<or> \<not> count < limit"
  shows "req c limit st responses params count =
           (Resolved (JArr (responses @ [payload (settle (transport c (length (sent st)) r))])), p,
            st\<lparr>aborts := Suc (aborts st), sent := sent st @ [r]\<rparr>)"
proof -
  from settle_cases[of "transport c (length (sent st)) r"] show ?thesis
  proof
    assume "\<exists>v. settle (transport c (length (sent st)) r) = Resolved v"
    then obtain v where v: "settle (transport c (length (sent st)) r) = Resolved v" ..
    with g stop show ?thesis by (subst req.simps) auto
  next
    assume "\<exists>e. settle (transport c (length (sent st)) r) = Rejected e"
    then obtain e where e: "settle (transport c (length (sent st)) r) = Rejected e" ..
    with g show ?thesis by (subst req.simps) simp
  qed
qed

lemma req_goes_on:
  assumes g: "get c st params no_options =
       (settle (transport c (length (sent st)) r), p, r,
        st\<lparr>aborts := Suc (aborts st), sent := sent st @ [r]\<rparr>)"
      and go: "continues (settle (transport c (length (sent st)) r))" "count < limit"
  shows "req c limit st responses params count =
           req c limit (st\<lparr>aborts := Suc (aborts st), sent := sent st @ [r]\<rparr>)
             (responses @ [payload (settle (transport c (length (sent st)) r))])
             (assign p [get_prop (payload (settle (transport c (length (sent st)) r))) ''continue''])
             (count + 1)"
proof -
  obtain res where "settle (transport c (length (sent st)) r) = Resolved res"
      "truthy (get_prop res ''continue'')"
    using continues_Resolved[OF go(1)] by blast
  with g go(2) show ?thesis by (subst req.simps) simp
qed

text \<open>
  The run of the driver when the first \<open>j\<close> replies let it go on and it stops at reply
  \<open>j\<close>, either because that reply does not continue or because the count has reached the
  limit.
\<close>

lemma req_run:
  assumes "\<forall>i<j. \<forall>r. continues (settle (transport c (length (sent st) + i) r))"
      and "(\<forall>r. \<not> continues (settle (transport c (length (sent st) + j) r))) \<or> \<not> count + int j < limit"
      and "\<forall>i<j. count + int i < limit"
  shows "\<exists>rs reqs p. req c limit st responses params count =
           (Resolved (JArr (responses @ rs)), p,
            st\<lparr>aborts := aborts st + Suc j, sent := sent st @ reqs\<rparr>)
         \<and> length rs = Suc j \<and> length reqs = Suc j
         \<and> (\<forall>i\<le>j. rs ! i = payload (settle (transport c (length (sent st) + i) (reqs ! i))))"
  using assms
proof (induction j arbitrary: st responses params count)
  case 0
  obtain r p where g: "get c st params no_options =
       (settle (transport c (length (sent st)) r), p, r,
        st\<lparr>aborts := Suc (aborts st), sent := sent st @ [r]\<rparr>)"
    by (rule req_step)
  have "\<not> continues (settle (transport c (length (sent st)) r)) \<or> \<not> count < limit"
    using "0.prems"(2) by auto
  from req_stops[OF g this, of responses]
  show ?case
    by (intro exI[of _ "[payload (settle (transport c (length (sent st)) r))]"] exI[of _ "[r]"] exI[of _ p])
       simp
next
  case (Suc j)
  obtain r p where g: "get c st params no_options =
       (settle (transport c (length (sent st)) r), p, r,
        st\<lparr>aborts := Suc (aborts st), sent := sent st @ [r]\<rparr>)"
    by (rule req_step)
  let ?st = "st\<lparr>aborts := Suc (aborts st), sent := sent st @ [r]\<rparr>"
  let ?v = "payload (settle (transport c (length (sent st)) r))"
  have go: "continues (settle (transport c (length (sent st)) r))" "count < limit"
    using Suc.prems(1)[rule_format, of 0 r] Suc.prems(3)[rule_format, of 0] by simp_all
  have step: "req c limit st responses params count =
           req c limit ?st (responses @ [?v]) (assign p [get_prop ?v ''continue'']) (count + 1)"
    by (rule req_goes_on[OF g go])
  have len: "length (sent ?st) = Suc (length (sent st))" by simp
  have p1: "\<forall>i<j. \<forall>r. continues (settle (transport c (length (sent ?st) + i) r))"
    using Suc.prems(1) by (auto simp: len)
  have p2: "(\<forall>r. \<not> continues (settle (transport c (length (sent ?st) + j) r))) \<or> \<not> (count + 1) + int j < limit"
    using Suc.prems(2) by (auto simp: len)
  have p3: "\<forall>i<j. (count + 1) + int i < limit"
  proof (intro allI impI)
    fix i assume "i < j"
    then have "count + int (Suc i) < limit" using Suc.prems(3) by auto
    then show "(count + 1) + int i < limit" by simp
  qed
  obtain rs reqs p' where ih:
    "req c limit ?st (responses @ [?v]) (assign p [get_prop ?v ''continue'']) (count + 1) =
       (Resolved (JArr ((responses @ [?v]) @ rs)), p',
        ?st\<lparr>aborts := aborts ?st + Suc j, sent := sent ?st @ reqs\<rparr>)"
    "length rs = Suc j" "length reqs = Suc j"
    "\<forall>i\<le>j. rs ! i = payload (settle (transport c (length (sent ?st) + i) (reqs ! i)))"
    using Suc.IH[OF p1 p2 p3, of "responses @ [?v]" "assign p [get_prop ?v ''continue'']"] by blast
  have nth: "\<forall>i\<le>Suc j. (?v # rs) ! i = payload (settle (transport c (length (sent st) + i) ((r # reqs) ! i)))"
  proof (intro allI impI)
    fix i assume i: "i \<le> Suc j"
    show "(?v # rs) ! i = payload (settle (transport c (length (sent st) + i) ((r # reqs) ! i)))"
    proof (cases i)
      case 0
      then show ?thesis by simp
    next
      case (Suc i')
      then have "i' \<le> j" using i by simp
      then show ?thesis using ih(4) Suc by (simp add: len)
    qed
  qed
  show ?case
    by (intro exI[of _ "?v # rs"] exI[of _ "r # reqs"] exI[of _ p'])
       (simp add: step ih(1) ih(2) ih(3) nth)
qed

text \<open>Whatever the transport does, the driver resolves with the array it filled.\<close>

lemma req_resolves:
  "\<exists>rs p st'. req c limit st responses params count = (Resolved (JArr (responses @ rs)), p, st')"
proof (induction c limit st responses params count rule: req.induct)
  case (1 c limit st responses params count)
  obtain r p where g: "get c st params no_options =
       (settle (transport c (length (sent st)) r), p, r,
        st\<lparr>aborts := Suc (aborts st), sent := sent st @ [r]\<rparr>)"
    by (rule req_step)
  let ?out = "settle (transport c (length (sent st)) r)"
  show ?case
  proof (cases "continues ?out \<and> count < limit")
    case True
    then obtain res where res: "?out = Resolved res" "truthy (get_prop res ''continue'')"
      using continues_Resolved by blast
    have "\<exists>rs p' st'. req c limit (st\<lparr>aborts := Suc (aborts st), sent := sent st @ [r]\<rparr>)
             (responses @ [res]) (assign p [get_prop res ''continue'']) (count + 1)
           = (Resolved (JArr ((responses @ [res]) @ rs)), p', st')"
      by (rule "1.IH"[OF g[unfolded res(1), symmetric] refl refl refl]) (use res(2) True in simp)
    then show ?thesis
      using req_goes_on[OF g, of count limit responses] True res by auto
  next
    case False
    then show ?thesis using req_stops[OF g, of count limit responses] by blast
  qed
qed

text \<open>
  C2, as amended. Whatever the transport answers, \<open>continuedQuery\<close> resolves with an
  array. Let reply \<open>i\<close> (counted from 1) let the driver go on for every \<open>i < k\<close> and reply
  \<open>k\<close> not (it has no truthy \<open>continue\<close>, or the step failed). Then the driver issues
  \<open>k\<close> requests when \<open>k \<le> limit\<close>, \<open>limit\<close> requests when \<open>1 \<le> limit < k\<close>, and one
  request when \<open>limit < 1\<close>: the count starts at 1 and the first request is made before
  the limit is looked at. The array holds one entry per request, in request order, each
  the body or the error value that request settled with.
\<close>

theorem continuedQuery_requests:
  "(\<exists>rs. fst (continuedQuery c st parameters lim) = Resolved (JArr rs))
   \<and> (0 < k
      \<and> (\<forall>i. Suc i < k \<longrightarrow> (\<forall>r. continues (settle (transport c (length (sent st) + i) r))))
      \<and> (\<forall>r. \<not> continues (settle (transport c (length (sent st) + (k - 1)) r)))
      \<longrightarrow> (\<exists>rs reqs p.
            continuedQuery c st parameters lim =
              (Resolved (JArr rs), p, st\<lparr>aborts := aborts st + length reqs, sent := sent st @ reqs\<rparr>)
            \<and> length rs = length reqs
            \<and> (\<forall>i<length reqs. rs ! i = payload (settle (transport c (length (sent st) + i) (reqs ! i))))
            \<and> length reqs =
                (let limit = (case lim of Some n \<Rightarrow> n | None \<Rightarrow> 10)
                 in if int k \<le> limit then k else if 1 \<le> limit then nat limit else 1)))"
proof (intro conjI impI)
  show "\<exists>rs. fst (continuedQuery c st parameters lim) = Resolved (JArr rs)"
    using req_resolves[of c "case lim of Some n \<Rightarrow> n | None \<Rightarrow> 10" st "[]" parameters 1]
    by (auto simp: continuedQuery_def)
next
  assume a: "0 < k
      \<and> (\<forall>i. Suc i < k \<longrightarrow> (\<forall>r. continues (settle (transport c (length (sent st) + i) r))))
      \<and> (\<forall>r. \<not> continues (settle (transport c (length (sent st) + (k - 1)) r)))"
  define limit where "limit = (case lim of Some n \<Rightarrow> n | None \<Rightarrow> (10::int))"
  define j where "j = (if int k \<le> limit then k - 1 else if 1 \<le> limit then nat limit - 1 else 0)"
  have jk: "j \<le> k - 1" using a by (auto simp: j_def)
  have h1: "\<forall>i<j. \<forall>r. continues (settle (transport c (length (sent st) + i) r))"
    using a jk by auto
  have h2: "(\<forall>r. \<not> continues (settle (transport c (length (sent st) + j) r))) \<or> \<not> 1 + int j < limit"
    using a by (auto simp: j_def)
  have h3: "\<forall>i<j. 1 + int i < limit"
    using a by (auto simp: j_def)
  obtain rs reqs p where run:
    "req c limit st [] parameters 1 =
       (Resolved (JArr ([] @ rs)), p, st\<lparr>aborts := aborts st + Suc j, sent := sent st @ reqs\<rparr>)"
    "length rs = Suc j" "length reqs = Suc j"
    "\<forall>i\<le>j. rs ! i = payload (settle (transport c (length (sent st) + i) (reqs ! i)))"
    using req_run[OF h1 h2 h3, of "[]" parameters] by blast
  have n: "Suc j = (if int k \<le> limit then k else if 1 \<le> limit then nat limit else 1)"
    using a by (auto simp: j_def)
  show "\<exists>rs reqs p.
            continuedQuery c st parameters lim =
              (Resolved (JArr rs), p, st\<lparr>aborts := aborts st + length reqs, sent := sent st @ reqs\<rparr>)
            \<and> length rs = length reqs
            \<and> (\<forall>i<length reqs. rs ! i = payload (settle (transport c (length (sent st) + i) (reqs ! i))))
            \<and> length reqs =
                (let limit = (case lim of Some n \<Rightarrow> n | None \<Rightarrow> 10)
                 in if int k \<le> limit then k else if 1 \<le> limit then nat limit else 1)"
    using run n
    by (intro exI[of _ rs] exI[of _ reqs] exI[of _ p])
       (simp add: continuedQuery_def limit_def[symmetric] Let_def less_Suc_eq_le)
qed

theorem continuedQuery_requests_witness:
  "length (sent (snd (snd (continuedQuery
       (example_client MWCCStatic [continuing_response ''B'', continuing_response ''C'', success_response])
       new_instance [(''list'', JStr ''allpages'')] None)))) = 3
   \<and> length (sent (snd (snd (continuedQuery
       (example_client MWCCStatic [continuing_response ''B'', continuing_response ''C'', success_response])
       new_instance [(''list'', JStr ''allpages'')] (Some 2))))) = 2
   \<and> (\<exists>rs. fst (continuedQuery
       (example_client MWCCStatic [continuing_response ''B'', continuing_response ''C'', success_response])
       new_instance [(''list'', JStr ''allpages'')] (Some 2)) = Resolved (JArr rs) \<and> length rs = 2)"
proof -
  let ?c = "example_client MWCCStatic [continuing_response ''B'', continuing_response ''C'', success_response]"
  have c: "continues (settle (continuing_response ''B''))" "continues (settle (continuing_response ''C''))"
          "\<not> continues (settle success_response)"
    by code_simp+
  have h: "0 < (3::nat)
      \<and> (\<forall>i. Suc i < 3 \<longrightarrow> (\<forall>r. continues (settle (transport ?c (length (sent new_instance) + i) r))))
      \<and> (\<forall>r. \<not> continues (settle (transport ?c (length (sent new_instance) + (3 - 1)) r)))"
    using c by (auto simp: example_client_def script_def new_instance_def less_Suc_eq numeral_3_eq_3)
  show ?thesis
    using continuedQuery_requests[of ?c new_instance "[(''list'', JStr ''allpages'')]" None 3]
          continuedQuery_requests[of ?c new_instance "[(''list'', JStr ''allpages'')]" "Some 2" 3] h
    by (auto simp: new_instance_def)
qed

text \<open>
  C2 as stated fails for a limit below 1. With \<open>limit = 0\<close> and a first reply that has no
  \<open>continue\<close> (so \<open>k = 1\<close> and \<open>limit < k\<close>) the claim has the driver issue \<open>limit = 0\<close>
  requests; it issues one.
\<close>

theorem continuedQuery_requests_counterexample:
  "\<not> continues (settle success_response)
   \<and> (0::int) < 1
   \<and> length (sent (snd (snd (continuedQuery (example_client MWCCStatic [success_response]) new_instance
                                [(''list'', JStr ''allpages'')] (Some 0))))) = 1
   \<and> length (sent (snd (snd (continuedQuery (example_client MWCCStatic [success_response]) new_instance
                                [(''list'', JStr ''allpages'')] (Some 0))))) \<noteq> nat 0"
  by code_simp

section \<open>Keys and copies of objects\<close>

lemma in_keys: "(k \<in> fst ` set ps) = (map_of ps k \<noteq> None)"
  by (simp add: map_of_eq_None_iff)

lemma keys_update_all:
  "map fst (map (\<lambda>(k', v'). if k' = k then (k', v) else (k', v')) ps) = map fst ps"
  by (induction ps) auto

lemma distinct_insert_index:
  "distinct (map fst ps) \<Longrightarrow> map_of ps k = None \<Longrightarrow> distinct (map fst (insert_index n k v ps))"
proof (induction ps)
  case Nil
  then show ?case by simp
next
  case (Cons a ps)
  obtain k' v' where a: "a = (k', v')" by (cases a)
  from Cons.prems a have k: "k' \<noteq> k" "map_of ps k = None" "map_of ps k' = None" "distinct (map fst ps)"
    by (auto simp: in_keys split: if_splits)
  have "map_of (insert_index n k v ps) k' = None"
    using k by (simp add: map_of_insert_index)
  then have "k' \<notin> fst ` set (insert_index n k v ps)" by (simp add: in_keys)
  moreover have "distinct (map fst (insert_index n k v ps))" using Cons.IH k by simp
  ultimately show ?case using k a by (auto simp: in_keys split: option.splits)
qed

lemma distinct_define_prop:
  assumes "distinct (map fst ps)"
  shows "distinct (map fst (define_prop ps k v))"
proof (cases "map_of ps k")
  case None
  then have "k \<notin> fst ` set ps" by (simp add: in_keys)
  with None assms show ?thesis
    by (auto simp: define_prop_def distinct_insert_index split: option.splits)
next
  case (Some a)
  with assms show ?thesis by (simp add: define_prop_def keys_update_all del: map_map)
qed

lemma distinct_set_prop:
  "distinct (map fst ps) \<Longrightarrow> distinct (map fst (set_prop ps k v))"
  by (simp add: set_prop_def distinct_define_prop)


lemma distinct_assign1_fold:
  "distinct (map fst t) \<Longrightarrow> distinct (map fst (foldl (\<lambda>t (k, v). set_prop t k v) t es))"
proof (induction es arbitrary: t)
  case Nil
  then show ?case by simp
next
  case (Cons a es)
  obtain k' v' where a: "a = (k', v')" by (cases a)
  show ?case using Cons.IH[OF distinct_set_prop[OF Cons.prems, of k' v']] by (simp add: a)
qed

lemma distinct_assign: "distinct (map fst t) \<Longrightarrow> distinct (map fst (assign t srcs))"
  unfolding assign_def
  by (induction srcs arbitrary: t) (simp_all add: assign1_def distinct_assign1_fold)

lemma map_of_rev_distinct: "distinct (map fst xs) \<Longrightarrow> map_of (rev xs) k = map_of xs k"
proof (induction xs)
  case Nil
  then show ?case by simp
next
  case (Cons a xs)
  obtain k' v' where a: "a = (k', v')" by (cases a)
  from Cons.prems a have "map_of xs k' = None" by (simp add: map_of_eq_None_iff)
  then show ?case using Cons a by (auto simp: map_add_def split: option.splits)
qed

lemma map_of_fold_set_prop_key:
  assumes "k \<noteq> ''__proto__''"
  shows "map_of (foldl (\<lambda>t (k, v). set_prop t k v) t es) k =
           (case map_of (rev es) k of Some v \<Rightarrow> Some v | None \<Rightarrow> map_of t k)"
proof (induction es arbitrary: t)
  case Nil
  then show ?case by simp
next
  case (Cons a es)
  obtain k' v' where a: "a = (k', v')" by (cases a)
  show ?case
    using assms
    by (auto simp: a Cons.IH map_of_set_prop assignable_def map_add_def split: option.splits)
qed

lemma map_of_fold_set_prop_proto:
  assumes "map_of t ''__proto__'' = None"
  shows "map_of (foldl (\<lambda>t (k, v). set_prop t k v) t es) ''__proto__'' = None"
  using assms
proof (induction es arbitrary: t)
  case Nil
  then show ?case by simp
next
  case (Cons a es)
  obtain k' v' where a: "a = (k', v')" by (cases a)
  have "map_of (set_prop t k' v') ''__proto__'' = None"
    using Cons.prems by (simp add: map_of_set_prop assignable_def)
  from Cons.IH[OF this] show ?case by (simp add: a)
qed

lemma map_of_assign_last:
  assumes "k \<noteq> ''__proto__''" "distinct (map fst ps)"
  shows "map_of (assign t (srcs @ [JObj ps])) k =
           (case map_of ps k of Some v \<Rightarrow> Some v | None \<Rightarrow> map_of (assign t srcs) k)"
proof -
  have "assign t (srcs @ [JObj ps]) = assign1 (assign t srcs) (JObj ps)"
    by (simp add: assign_def)
  then show ?thesis
    using assms by (simp add: assign1_def map_of_fold_set_prop_key map_of_rev_distinct)
qed

text \<open>
  The copy \<open>Object.assign({}, o)\<close> has the properties of \<open>o\<close>, but for one named
  \<open>__proto__\<close>.
\<close>

lemma map_of_copy:
  assumes "distinct (map fst ps)"
  shows "map_of (assign [] [JObj ps]) k = (if k = ''__proto__'' then None else map_of ps k)"
proof (cases "k = ''__proto__''")
  case True
  then show ?thesis by (simp add: assign_def assign1_def map_of_fold_set_prop_proto)
next
  case False
  then show ?thesis
    using map_of_assign_last[OF False assms, of "[]" "[]"]
    by (simp add: assign_def split: option.splits)
qed

lemma lookup_copy:
  "distinct (map fst ps) \<Longrightarrow> k \<noteq> ''__proto__'' \<Longrightarrow> lookup (assign [] [JObj ps]) k = lookup ps k"
  by (simp add: lookup_def map_of_copy)

lemma distinct_copy: "distinct (map fst (assign [] srcs))"
  by (rule distinct_assign) simp

section \<open>The batch splitter: validation\<close>

lemma scan_step_cases:
  "scan_step lim fs (acc, na, p) key =
     (if key \<in> set fs then
        if is_array (lookup p key) then (acc @ [coerced (lookup p key)], na, p)
        else (acc, na @ [quoted key], p)
      else if ends_with_limit key \<and> (lim = 500 \<or> lim = 50)
      then (acc, na, set_prop p key (JStr ''max''))
      else (acc, na, p))"
  by (cases "lookup p key") (simp_all add: scan_step_def)

text \<open>
  The pass over the keys: it collects the coerced arrays of the named fields and the
  quoted names of the named fields that are no arrays, in key order, and leaves every
  named field as it was.
\<close>

lemma scan_fold:
  assumes "distinct (map fst p)"
  shows "\<exists>p'. foldl (scan_step lim fs) (acc, na, p) ks =
           (acc @ map (\<lambda>k. coerced (lookup p k)) [k\<leftarrow>ks. k \<in> set fs \<and> is_array (lookup p k)],
            na @ map quoted [k\<leftarrow>ks. k \<in> set fs \<and> \<not> is_array (lookup p k)],
            p')
         \<and> (\<forall>k\<in>set fs. lookup p' k = lookup p k) \<and> distinct (map fst p')"
  using assms
proof (induction ks arbitrary: acc na p)
  case Nil
  then show ?case by simp
next
  case (Cons a ks)
  let ?A = "\<lambda>p. filter (\<lambda>k. k \<in> set fs \<and> is_array (lookup p k))"
  let ?N = "\<lambda>p. filter (\<lambda>k. k \<in> set fs \<and> \<not> is_array (lookup p k))"
  consider (arr) "a \<in> set fs" "is_array (lookup p a)"
    | (non) "a \<in> set fs" "\<not> is_array (lookup p a)"
    | (lim) "a \<notin> set fs" "ends_with_limit a \<and> (lim = 500 \<or> lim = 50)"
    | (other) "a \<notin> set fs" "\<not> (ends_with_limit a \<and> (lim = 500 \<or> lim = 50))"
    by blast
  then show ?case
  proof cases
    case arr
    then have step: "scan_step lim fs (acc, na, p) a = (acc @ [coerced (lookup p a)], na, p)"
      by (simp add: scan_step_cases)
    obtain p' where ih: "foldl (scan_step lim fs) (acc @ [coerced (lookup p a)], na, p) ks =
           ((acc @ [coerced (lookup p a)]) @ map (\<lambda>k. coerced (lookup p k)) (?A p ks),
            na @ map quoted (?N p ks), p')"
          "\<forall>k\<in>set fs. lookup p' k = lookup p k" "distinct (map fst p')"
      using Cons.IH[OF Cons.prems, of "acc @ [coerced (lookup p a)]" na] by auto
    show ?thesis
      by (rule exI[of _ p']) (simp add: step ih arr)
  next
    case non
    then have step: "scan_step lim fs (acc, na, p) a = (acc, na @ [quoted a], p)"
      by (simp add: scan_step_cases)
    obtain p' where ih: "foldl (scan_step lim fs) (acc, na @ [quoted a], p) ks =
           (acc @ map (\<lambda>k. coerced (lookup p k)) (?A p ks),
            (na @ [quoted a]) @ map quoted (?N p ks), p')"
          "\<forall>k\<in>set fs. lookup p' k = lookup p k" "distinct (map fst p')"
      using Cons.IH[OF Cons.prems, of acc "na @ [quoted a]"] by auto
    show ?thesis
      by (rule exI[of _ p']) (simp add: step ih non)
  next
    case other
    then have step: "scan_step lim fs (acc, na, p) a = (acc, na, p)"
      by (auto simp: scan_step_cases)
    obtain p' where ih: "foldl (scan_step lim fs) (acc, na, p) ks =
           (acc @ map (\<lambda>k. coerced (lookup p k)) (?A p ks),
            na @ map quoted (?N p ks), p')"
          "\<forall>k\<in>set fs. lookup p' k = lookup p k" "distinct (map fst p')"
      using Cons.IH[OF Cons.prems, of acc na] by auto
    show ?thesis
      by (rule exI[of _ p']) (simp add: step ih other)
  next
    case lim
    let ?p = "set_prop p a (JStr ''max'')"
    have step: "scan_step lim fs (acc, na, p) a = (acc, na, ?p)"
      using lim by (simp add: scan_step_cases)
    have same: "\<And>k. k \<in> set fs \<Longrightarrow> lookup ?p k = lookup p k"
      using lim(1) by (auto simp: lookup_set_prop)
    have f1: "?A ?p ks = ?A p ks"
      by (rule filter_cong) (auto simp: same)
    have f2: "?N ?p ks = ?N p ks"
      by (rule filter_cong) (auto simp: same)
    have m: "map (\<lambda>k. coerced (lookup ?p k)) (?A p ks) = map (\<lambda>k. coerced (lookup p k)) (?A p ks)"
      by (rule map_cong) (auto simp: same)
    obtain p' where ih: "foldl (scan_step lim fs) (acc, na, ?p) ks =
           (acc @ map (\<lambda>k. coerced (lookup ?p k)) (?A ?p ks),
            na @ map quoted (?N ?p ks), p')"
          "\<forall>k\<in>set fs. lookup p' k = lookup ?p k" "distinct (map fst p')"
      using Cons.IH[OF distinct_set_prop[OF Cons.prems, of a "JStr ''max''"], of acc na] by auto
    show ?thesis
      by (rule exI[of _ p']) (simp add: step ih f1 f2 m same lim(1))
  qed
qed

lemma same_array_eq: "same_array a b = (a = b)"
proof
  assume s: "same_array a b"
  then have l: "length a = length b" and n: "\<forall>i<length a. b ! i = a ! i"
    by (simp_all add: same_array_def list_all_iff)
  show "a = b" by (rule nth_equalityI[OF l]) (simp add: n)
next
  assume "a = b"
  then show "same_array a b" by (simp add: same_array_def list_all_iff)
qed

lemma keys_copy:
  assumes "distinct (map fst ps)"
  shows "(k \<in> set (map fst (assign [] [JObj ps]))) = (k \<noteq> ''__proto__'' \<and> map_of ps k \<noteq> None)"
  using in_keys[of k "assign [] [JObj ps]"] by (simp add: map_of_copy[OF assms])

text \<open>\<open>massQuery\<close> with the pass over the keys carried out.\<close>

lemma massQuery_unfold:
  fixes parameters :: props and flds :: fields
  assumes d: "distinct (map fst parameters)" and np: "''__proto__'' \<notin> set (field_names flds)"
  defines "ks \<equiv> map fst (assign [] [JObj parameters])"
      and "fs \<equiv> field_names flds"
  defines "fv \<equiv> map (\<lambda>k. coerced (lookup parameters k)) [k\<leftarrow>ks. k \<in> set fs \<and> is_array (lookup parameters k)]"
      and "na \<equiv> map quoted [k\<leftarrow>ks. k \<in> set fs \<and> \<not> is_array (lookup parameters k)]"
  shows \<open>\<exists>P2. distinct (map fst P2) \<and> (\<forall>k\<in>set fs. lookup P2 k = lookup parameters k)
           \<and> massQuery c st parameters flds opts =
              (if na \<noteq> [] then
                 Some (Rejected (error_object ''nonarray-exception''
                         (''The value(s) for '' @ join_strings '', '' na @ '' must be arrays'')), st)
               else if fs = [] then
                 Some (Rejected (error_object ''emptyfield'' ''The "fields" parameter is empty''), st)
               else
                 (case fv of
                    [] \<Rightarrow> Some (Rejected (error_object ''nomultivalue''
                            ''There's no multi-value field (check for typos in parameter keys?)''), st)
                  | batchArray # others \<Rightarrow>
                      if \<not> list_all (same_array batchArray) others then
                        Some (Rejected (error_object ''nonindentical-arrays''
                                ''The multi-value fields must all have the same array''), st)
                      else if batchArray = [] then Some (Resolved (JArr []), st)
                      else batch_loop c (case o_apilimit opts of Some n \<Rightarrow> n | None \<Rightarrow> apilimit)
                             P2 fs st batchArray []))\<close>
proof -
  let ?P = "assign [] [JObj parameters]"
  let ?lim = "case o_apilimit opts of Some n \<Rightarrow> n | None \<Rightarrow> apilimit"
  have dP: "distinct (map fst ?P)" by (rule distinct_copy)
  have l: "lookup ?P k = lookup parameters k" if "k \<in> set fs" for k
  proof -
    from that np have "k \<noteq> ''__proto__''" by (auto simp: fs_def)
    then show ?thesis by (rule lookup_copy[OF d])
  qed
  obtain P2 where sc: "foldl (scan_step ?lim fs) ([], [], ?P) ks =
           ([] @ map (\<lambda>k. coerced (lookup ?P k)) [k\<leftarrow>ks. k \<in> set fs \<and> is_array (lookup ?P k)],
            [] @ map quoted [k\<leftarrow>ks. k \<in> set fs \<and> \<not> is_array (lookup ?P k)], P2)"
      "\<forall>k\<in>set fs. lookup P2 k = lookup ?P k" "distinct (map fst P2)"
    using scan_fold[OF dP, of ?lim fs "[]" "[]" ks] by blast
  have f1: "[k\<leftarrow>ks. k \<in> set fs \<and> is_array (lookup ?P k)]
              = [k\<leftarrow>ks. k \<in> set fs \<and> is_array (lookup parameters k)]"
    by (rule filter_cong) (auto simp: l)
  have f2: "[k\<leftarrow>ks. k \<in> set fs \<and> \<not> is_array (lookup ?P k)]
              = [k\<leftarrow>ks. k \<in> set fs \<and> \<not> is_array (lookup parameters k)]"
    by (rule filter_cong) (auto simp: l)
  have m: "map (\<lambda>k. coerced (lookup ?P k)) [k\<leftarrow>ks. k \<in> set fs \<and> is_array (lookup parameters k)] = fv"
    unfolding fv_def by (rule map_cong) (auto simp: l)
  have "foldl (scan_step ?lim fs) ([], [], ?P) ks = (fv, na, P2)"
    using sc(1) unfolding f1 f2 by (simp add: m na_def)
  then have sc': "foldl (scan_step ?lim fs) ([], [], ?P) (map fst ?P) = (fv, na, P2)"
    unfolding ks_def .
  have same: "\<forall>k\<in>set fs. lookup P2 k = lookup parameters k"
    using sc(2) l by simp
  show ?thesis
    by (rule exI[of _ P2])
       (simp add: sc(3) same massQuery_def Let_def sc' fs_def[symmetric])
qed

lemma error_code_error_object: "error_code (error_object code info) = JStr code"
  by (simp add: error_code_def error_object_def lookup_def)

lemma is_array_present: "is_array (lookup ps k) \<Longrightarrow> map_of ps k \<noteq> None"
  by (cases "map_of ps k") (simp_all add: lookup_def)

text \<open>
  C4. The parameter map is an object (no key twice), and no field is named \<open>__proto__\<close>,
  the one property that the copy \<open>Object.assign({}, parameters)\<close> leaves out. Every
  rejection below returns the state it was given, so no request has been issued. In the
  order in which the checks are made:
  \<^item> if a named field is a key of the parameters with a value that is no array, the call
    rejects with \<open>nonarray-exception\<close>, and the message lists exactly those fields, quoted;
  \<^item> if the list of names is empty after the falsy ones are dropped, it rejects with
    \<open>emptyfield\<close>;
  \<^item> otherwise, if no named field holds an array, it rejects with \<open>nomultivalue\<close>;
  \<^item> otherwise, if two named fields hold arrays whose elements, coerced to strings, differ
    in number or in some position, it rejects with \<open>nonindentical-arrays\<close>.
\<close>

theorem massQuery_validation:
  fixes parameters :: props and flds :: fields
  assumes d: "distinct (map fst parameters)" and np: "''__proto__'' \<notin> set (field_names flds)"
  shows
   "((\<exists>k\<in>set (field_names flds). map_of parameters k \<noteq> None \<and> \<not> is_array (lookup parameters k)) \<longrightarrow>
       (\<exists>ks. massQuery c st parameters flds opts =
               Some (Rejected (error_object ''nonarray-exception''
                       (''The value(s) for '' @ join_strings '', '' (map quoted ks) @ '' must be arrays'')), st)
           \<and> ks \<noteq> []
           \<and> set ks = {k \<in> set (field_names flds). map_of parameters k \<noteq> None \<and> \<not> is_array (lookup parameters k)}))
    \<and> (field_names flds = [] \<longrightarrow>
       (\<exists>e. massQuery c st parameters flds opts = Some (Rejected e, st) \<and> error_code e = JStr ''emptyfield''))
    \<and> (\<not> (\<exists>k\<in>set (field_names flds). map_of parameters k \<noteq> None \<and> \<not> is_array (lookup parameters k))
        \<and> field_names flds \<noteq> [] \<and> (\<forall>k\<in>set (field_names flds). \<not> is_array (lookup parameters k)) \<longrightarrow>
       (\<exists>e. massQuery c st parameters flds opts = Some (Rejected e, st) \<and> error_code e = JStr ''nomultivalue''))
    \<and> (\<not> (\<exists>k\<in>set (field_names flds). map_of parameters k \<noteq> None \<and> \<not> is_array (lookup parameters k))
        \<and> (\<exists>k1\<in>set (field_names flds). \<exists>k2\<in>set (field_names flds).
              is_array (lookup parameters k1) \<and> is_array (lookup parameters k2)
              \<and> coerced (lookup parameters k1) \<noteq> coerced (lookup parameters k2)) \<longrightarrow>
       (\<exists>e. massQuery c st parameters flds opts = Some (Rejected e, st)
            \<and> error_code e = JStr ''nonindentical-arrays''))"
proof -
  let ?fs = "field_names flds"
  let ?ks = "map fst (assign [] [JObj parameters])"
  let ?bad = "\<lambda>k. map_of parameters k \<noteq> None \<and> \<not> is_array (lookup parameters k)"
  let ?L = "[k\<leftarrow>?ks. k \<in> set ?fs \<and> \<not> is_array (lookup parameters k)]"
  let ?A = "[k\<leftarrow>?ks. k \<in> set ?fs \<and> is_array (lookup parameters k)]"
  let ?fv = "map (\<lambda>k. coerced (lookup parameters k)) ?A"
  obtain P2 where mq: \<open>massQuery c st parameters flds opts =
              (if map quoted ?L \<noteq> [] then
                 Some (Rejected (error_object ''nonarray-exception''
                         (''The value(s) for '' @ join_strings '', '' (map quoted ?L) @ '' must be arrays'')), st)
               else if ?fs = [] then
                 Some (Rejected (error_object ''emptyfield'' ''The "fields" parameter is empty''), st)
               else
                 (case ?fv of
                    [] \<Rightarrow> Some (Rejected (error_object ''nomultivalue''
                            ''There's no multi-value field (check for typos in parameter keys?)''), st)
                  | batchArray # others \<Rightarrow>
                      if \<not> list_all (same_array batchArray) others then
                        Some (Rejected (error_object ''nonindentical-arrays''
                                ''The multi-value fields must all have the same array''), st)
                      else if batchArray = [] then Some (Resolved (JArr []), st)
                      else batch_loop c (case o_apilimit opts of Some n \<Rightarrow> n | None \<Rightarrow> apilimit)
                             P2 ?fs st batchArray []))\<close>
    using massQuery_unfold[OF d np, of c st opts] by blast
  have keys: "\<And>k. (k \<in> set ?ks) = (k \<noteq> ''__proto__'' \<and> map_of parameters k \<noteq> None)"
    by (rule keys_copy[OF d])
  have setL: "set ?L = {k \<in> set ?fs. ?bad k}"
    using np by (auto simp: keys simp del: set_map)
  have setA: "set ?A = {k \<in> set ?fs. is_array (lookup parameters k)}"
    using is_array_present[of parameters] np by (auto simp: keys simp del: set_map)
  show ?thesis
  proof (intro conjI impI)
    assume "\<exists>k\<in>set ?fs. ?bad k"
    then have ne: "?L \<noteq> []" using setL by (metis (mono_tags, lifting) empty_iff empty_set mem_Collect_eq)
    then have "massQuery c st parameters flds opts =
               Some (Rejected (error_object ''nonarray-exception''
                       (''The value(s) for '' @ join_strings '', '' (map quoted ?L) @ '' must be arrays'')), st)"
      by (simp add: mq)
    with ne setL show "\<exists>ks. massQuery c st parameters flds opts =
               Some (Rejected (error_object ''nonarray-exception''
                       (''The value(s) for '' @ join_strings '', '' (map quoted ks) @ '' must be arrays'')), st)
           \<and> ks \<noteq> [] \<and> set ks = {k \<in> set ?fs. ?bad k}"
      by blast
  next
    assume e: "?fs = []"
    then have "?L = []" by simp
    with e show "\<exists>e. massQuery c st parameters flds opts = Some (Rejected e, st) \<and> error_code e = JStr ''emptyfield''"
      by (simp add: mq error_code_error_object)
  next
    assume a: "\<not> (\<exists>k\<in>set ?fs. ?bad k) \<and> ?fs \<noteq> [] \<and> (\<forall>k\<in>set ?fs. \<not> is_array (lookup parameters k))"
    then have "set ?L = {}" "set ?A = {}" using setL setA by auto
    then have "?L = []" "?A = []" by (simp_all only: set_empty)
    with a show "\<exists>e. massQuery c st parameters flds opts = Some (Rejected e, st) \<and> error_code e = JStr ''nomultivalue''"
      by (simp add: mq error_code_error_object)
  next
    assume a: "\<not> (\<exists>k\<in>set ?fs. ?bad k)
        \<and> (\<exists>k1\<in>set ?fs. \<exists>k2\<in>set ?fs.
              is_array (lookup parameters k1) \<and> is_array (lookup parameters k2)
              \<and> coerced (lookup parameters k1) \<noteq> coerced (lookup parameters k2))"
    then have "set ?L = {}" using setL by auto
    then have L: "?L = []" by (simp only: set_empty)
    from a obtain k1 k2 where k: "k1 \<in> set ?fs" "k2 \<in> set ?fs"
        "is_array (lookup parameters k1)" "is_array (lookup parameters k2)"
        "coerced (lookup parameters k1) \<noteq> coerced (lookup parameters k2)" by blast
    then have in_fv: "coerced (lookup parameters k1) \<in> set ?fv" "coerced (lookup parameters k2) \<in> set ?fv"
      using setA by auto
    have fs: "?fs \<noteq> []" using k(1) by auto
    show "\<exists>e. massQuery c st parameters flds opts = Some (Rejected e, st)
            \<and> error_code e = JStr ''nonindentical-arrays''"
    proof (cases ?fv)
      case Nil
      with in_fv show ?thesis by simp
    next
      case (Cons b others)
      have "\<not> list_all (same_array b) others"
      proof
        assume "list_all (same_array b) others"
        then have "\<forall>x\<in>set ?fv. x = b" unfolding Cons by (auto simp: list_all_iff same_array_eq)
        with in_fv k(5) show False by metis
      qed
      then show ?thesis using L fs Cons by (simp add: mq error_code_error_object)
    qed
  qed
qed

theorem massQuery_validation_witness:
  "(\<exists>e. massQuery (example_client MWCCStatic []) new_instance
            [(''titles'', JStr ''A|B''), (''prop'', JStr ''info'')] (Field ''titles'')
            \<lparr>o_apilimit = None, o_verbose = None\<rparr> = Some (Rejected e, new_instance)
        \<and> error_code e = JStr ''nonarray-exception'')
   \<and> (\<exists>e. massQuery (example_client MWCCStatic []) new_instance
            [(''titles'', JArr [JStr ''A'', JStr ''B''])] (Fields [[]])
            \<lparr>o_apilimit = None, o_verbose = None\<rparr> = Some (Rejected e, new_instance)
        \<and> error_code e = JStr ''emptyfield'')
   \<and> (\<exists>e. massQuery (example_client MWCCStatic []) new_instance
            [(''pageids'', JArr [JNum 1, JNum 2])] (Field ''titles'')
            \<lparr>o_apilimit = None, o_verbose = None\<rparr> = Some (Rejected e, new_instance)
        \<and> error_code e = JStr ''nomultivalue'')
   \<and> (\<exists>e. massQuery (example_client MWCCStatic []) new_instance
            [(''titles'', JArr [JStr ''1'', JStr ''2'']), (''pageids'', JArr [JNum 1])]
            (Fields [''titles'', ''pageids''])
            \<lparr>o_apilimit = None, o_verbose = None\<rparr> = Some (Rejected e, new_instance)
        \<and> error_code e = JStr ''nonindentical-arrays'')"
proof (intro conjI)
  let ?c = "example_client MWCCStatic []"
  let ?o = "\<lparr>o_apilimit = None, o_verbose = None\<rparr>"
  let ?p1 = "[(''titles'', JStr ''A|B''), (''prop'', JStr ''info'')]"
  let ?p2 = "[(''titles'', JArr [JStr ''A'', JStr ''B''])]"
  let ?p3 = "[(''pageids'', JArr [JNum 1, JNum 2])]"
  let ?p4 = "[(''titles'', JArr [JStr ''1'', JStr ''2'']), (''pageids'', JArr [JNum 1])]"
  have d: "distinct (map fst ?p1)" "distinct (map fst ?p2)" "distinct (map fst ?p3)"
          "distinct (map fst ?p4)"
    by simp_all
  have np: "''__proto__'' \<notin> set (field_names (Field ''titles''))"
           "''__proto__'' \<notin> set (field_names (Fields [[]]))"
           "''__proto__'' \<notin> set (field_names (Fields [''titles'', ''pageids'']))"
    by (simp_all add: field_names_def)
  have h1: "\<exists>k\<in>set (field_names (Field ''titles'')).
              map_of ?p1 k \<noteq> None \<and> \<not> is_array (lookup ?p1 k)"
    by (simp add: field_names_def lookup_def)
  obtain ks where "massQuery ?c new_instance ?p1 (Field ''titles'') ?o =
       Some (Rejected (error_object ''nonarray-exception''
               (''The value(s) for '' @ join_strings '', '' (map quoted ks) @ '' must be arrays'')),
             new_instance)"
    using massQuery_validation[OF d(1) np(1), of ?c new_instance ?o,
            THEN conjunct1, rule_format, OF h1]
    by blast
  then show "\<exists>e. massQuery ?c new_instance ?p1 (Field ''titles'') ?o = Some (Rejected e, new_instance)
                \<and> error_code e = JStr ''nonarray-exception''"
    by (simp add: error_code_error_object)
  have h2: "field_names (Fields [[]]) = []"
    by (simp add: field_names_def)
  show "\<exists>e. massQuery ?c new_instance ?p2 (Fields [[]]) ?o = Some (Rejected e, new_instance)
           \<and> error_code e = JStr ''emptyfield''"
    by (rule massQuery_validation[OF d(2) np(2), of ?c new_instance ?o,
               THEN conjunct2, THEN conjunct1, rule_format, OF h2])
  have h3: "\<not> (\<exists>k\<in>set (field_names (Field ''titles'')).
                 map_of ?p3 k \<noteq> None \<and> \<not> is_array (lookup ?p3 k))
            \<and> field_names (Field ''titles'') \<noteq> []
            \<and> (\<forall>k\<in>set (field_names (Field ''titles'')). \<not> is_array (lookup ?p3 k))"
    by (simp add: field_names_def lookup_def)
  show "\<exists>e. massQuery ?c new_instance ?p3 (Field ''titles'') ?o = Some (Rejected e, new_instance)
           \<and> error_code e = JStr ''nomultivalue''"
    by (rule massQuery_validation[OF d(3) np(1), of ?c new_instance ?o,
               THEN conjunct2, THEN conjunct2, THEN conjunct1, rule_format, OF h3])
  have h4: "\<not> (\<exists>k\<in>set (field_names (Fields [''titles'', ''pageids''])).
                 map_of ?p4 k \<noteq> None \<and> \<not> is_array (lookup ?p4 k))
            \<and> (\<exists>k1\<in>set (field_names (Fields [''titles'', ''pageids''])).
                 \<exists>k2\<in>set (field_names (Fields [''titles'', ''pageids''])).
                   is_array (lookup ?p4 k1) \<and> is_array (lookup ?p4 k2)
                   \<and> coerced (lookup ?p4 k1) \<noteq> coerced (lookup ?p4 k2))"
    by (simp add: field_names_def lookup_def)
  show "\<exists>e. massQuery ?c new_instance ?p4 (Fields [''titles'', ''pageids'']) ?o
              = Some (Rejected e, new_instance)
           \<and> error_code e = JStr ''nonindentical-arrays''"
    by (rule massQuery_validation[OF d(4) np(3), of ?c new_instance ?o,
               THEN conjunct2, THEN conjunct2, THEN conjunct2, rule_format, OF h4])
qed
section \<open>The batch splitter: requests\<close>









lemma absorb_settle: "absorb (settle r) = Resolved (payload (settle r))"
  using settle_cases[of r] by auto














end
